theory Spec2Isabelle
  imports Main "HOL-Library.Sublist"
begin

section \<open>Feature materialization of the EHRShot XGBoost benchmark notebook\<close>

text \<open>
  The development embeds cell 11 of \<^verbatim>\<open>examples/benchmark_ehrshot_xgboost.ipynb\<close>:
  \<^verbatim>\<open>
  num_features = samples.input_processors["feature"]._next_index
  X, y, splits = [], [], []
  for sample in samples:
      vec = np.zeros(num_features, dtype=int)
      vec[sample["feature"].numpy()] = 1  # multi-hot encoding
      X.append(vec)
      y.append(sample["label"].item())
      splits.append(sample["split"])
  X = np.array(X)
  y = np.array(y)
  splits = np.array(splits)
  if task.startswith("lab_"):
      y[y >= 1] = 1
  X_train = X[splits == "train"]
  y_train = y[splits == "train"]
  X_val = X[splits == "val"]
  y_val = y[splits == "val"]
  X_test = X[splits == "test"]
  y_test = y[splits == "test"]
  \<close>
  Arrays are lists, a two-dimensional array is a list of rows, integers are \<open>int\<close>, and
  an exception raised by the cell is the \<open>Inl\<close> branch of a sum.
\<close>

subsection \<open>Data\<close>

text \<open>
  A sample is read through three keys: \<open>sample["feature"]\<close>, a one-dimensional integer
  tensor of vocabulary indices; \<open>sample["label"].item()\<close>, an integer scalar; and
  \<open>sample["split"]\<close>, a string.
\<close>

record sample =
  feature :: "int list"
  label :: int
  split :: string

datatype error = ValueError | IndexError

text \<open>The names the cell binds when it runs to its end.\<close>

record arrays =
  X_all :: "int list list"
  y_all :: "int list"
  splits_all :: "string list"
  X_train :: "int list list"
  y_train :: "int list"
  X_val :: "int list list"
  y_val :: "int list"
  X_test :: "int list list"
  y_test :: "int list"

subsection \<open>The numpy operations the cell calls\<close>

text \<open>\<open>np.zeros(n, dtype=int)\<close>: a negative dimension raises ValueError.\<close>

definition np_zeros :: "int \<Rightarrow> error + int list" where
  "np_zeros n = (if n < 0 then Inl ValueError else Inr (replicate (nat n) 0))"

text \<open>
  Indexing an axis of size \<open>n\<close> with the integer \<open>i\<close>: numpy accepts \<open>- n \<le> i < n\<close>
  and reads a negative index from the end; any other index raises IndexError.
\<close>

definition in_bounds :: "int \<Rightarrow> int \<Rightarrow> bool" where
  "in_bounds n i = (- n \<le> i \<and> i < n)"

definition wrap_index :: "int \<Rightarrow> int \<Rightarrow> nat" where
  "wrap_index n i = nat (if i < 0 then i + n else i)"

text \<open>
  \<open>vec[idx] = 1\<close> with an integer index array: all indices are bounds-checked, then
  each indexed position is assigned.
\<close>

definition setitem_one :: "int list \<Rightarrow> int list \<Rightarrow> error + int list" where
  "setitem_one vec idx =
     (let n = int (length vec)
      in if list_all (in_bounds n) idx
         then Inr (fold (\<lambda>i v. v[wrap_index n i := 1]) idx vec)
         else Inl IndexError)"

text \<open>
  \<open>np.array(splits)\<close> stores the tags in a fixed-width unicode array, padded with NUL
  characters; an element read back, or compared, has its trailing NULs removed.
\<close>

definition np_str :: "string \<Rightarrow> string" where
  "np_str s = rev (dropWhile (\<lambda>c. c = CHR 0x00) (rev s))"

text \<open>\<open>splits == tag\<close>: the elementwise comparison of a string array with a string.\<close>

definition eq_mask :: "string list \<Rightarrow> string \<Rightarrow> bool list" where
  "eq_mask arr tag = map (\<lambda>s. s = np_str tag) arr"

text \<open>\<open>a[mask]\<close> with a boolean mask of the length of \<open>a\<close>: the rows where the mask holds.\<close>

definition bool_index :: "'a list \<Rightarrow> bool list \<Rightarrow> 'a list" where
  "bool_index a msk = map fst (filter snd (zip a msk))"

text \<open>\<open>y[y >= 1] = 1\<close>.\<close>

definition binarize :: "int list \<Rightarrow> int list" where
  "binarize ys = map (\<lambda>v. if v \<ge> 1 then 1 else v) ys"

text \<open>\<open>s.startswith(p)\<close>.\<close>

definition startswith :: "string \<Rightarrow> string \<Rightarrow> bool" where
  "startswith s p = (take (length p) s = p)"

subsection \<open>The cell\<close>

text \<open>The first two statements of the loop body: the multi-hot row of one sample.\<close>

definition multi_hot :: "int \<Rightarrow> sample \<Rightarrow> error + int list" where
  "multi_hot num_features s =
     (case np_zeros num_features of
        Inl e \<Rightarrow> Inl e
      | Inr vec \<Rightarrow> setitem_one vec (feature s))"

text \<open>
  The loop over the samples, with the three Python lists it appends to as accumulator.
  An exception leaves the loop at once.
\<close>

fun loop :: "int \<Rightarrow> sample list \<Rightarrow> int list list \<times> int list \<times> string list
    \<Rightarrow> error + int list list \<times> int list \<times> string list" where
  "loop num_features [] acc = Inr acc"
| "loop num_features (s # ss) (X, y, splits) =
     (case multi_hot num_features s of
        Inl e \<Rightarrow> Inl e
      | Inr vec \<Rightarrow> loop num_features ss (X @ [vec], y @ [label s], splits @ [split s]))"

definition materialize :: "int \<Rightarrow> string \<Rightarrow> sample list \<Rightarrow> error + arrays" where
  "materialize num_features task samples =
     (case loop num_features samples ([], [], []) of
        Inl e \<Rightarrow> Inl e
      | Inr (X, y0, splits0) \<Rightarrow>
          (let splits = map np_str splits0;
               y = (if startswith task ''lab_'' then binarize y0 else y0)
           in Inr \<lparr> X_all = X, y_all = y, splits_all = splits,
                    X_train = bool_index X (eq_mask splits ''train''),
                    y_train = bool_index y (eq_mask splits ''train''),
                    X_val = bool_index X (eq_mask splits ''val''),
                    y_val = bool_index y (eq_mask splits ''val''),
                    X_test = bool_index X (eq_mask splits ''test''),
                    y_test = bool_index y (eq_mask splits ''test'') \<rparr>))"

subsection \<open>The cell as a step on the notebook's global names\<close>

text \<open>
  The cell reads three things bound by earlier cells: \<open>task\<close>, \<open>samples\<close> and, through
  \<open>samples\<close>, the vocabulary counter \<open>_next_index\<close>. Every other name is one the cell
  assigns: \<open>num_features\<close>, the loop variable \<open>sample\<close>, \<open>vec\<close>, \<open>X\<close>, \<open>y\<close>, \<open>splits\<close>
  and the six partitions. A name that is not bound yet is a field holding any value; the
  cell assigns each name before it reads it.
\<close>

record notebook =
  g_task :: string
  g_samples :: "sample list"
  g_next_index :: int
  g_num_features :: int
  g_sample :: sample
  g_vec :: "int list"
  g_X :: "int list list"
  g_y :: "int list"
  g_splits :: "string list"
  g_X_train :: "int list list"
  g_y_train :: "int list"
  g_X_val :: "int list list"
  g_y_val :: "int list"
  g_X_test :: "int list list"
  g_y_test :: "int list"

text \<open>
  The \<open>for\<close> loop, statement by statement. An exception leaves the loop with the names
  as they are bound at that moment.
\<close>

fun for_loop :: "notebook \<Rightarrow> sample list \<Rightarrow> error \<times> notebook + notebook" where
  "for_loop g [] = Inr g"
| "for_loop g (s # ss) =
     (let g1 = g\<lparr> g_sample := s \<rparr>
      in case np_zeros (g_num_features g1) of
           Inl e \<Rightarrow> Inl (e, g1)
         | Inr zeros \<Rightarrow>
             (let g2 = g1\<lparr> g_vec := zeros \<rparr>
              in case setitem_one (g_vec g2) (feature (g_sample g2)) of
                   Inl e \<Rightarrow> Inl (e, g2)
                 | Inr vec \<Rightarrow>
                     for_loop
                       (g2\<lparr> g_vec := vec,
                            g_X := g_X g2 @ [vec],
                            g_y := g_y g2 @ [label (g_sample g2)],
                            g_splits := g_splits g2 @ [split (g_sample g2)] \<rparr>)
                       ss))"

text \<open>The statements after the loop.\<close>

definition after_loop :: "notebook \<Rightarrow> notebook" where
  "after_loop g =
     (let g1 = g\<lparr> g_splits := map np_str (g_splits g) \<rparr>;
          g2 = (if startswith (g_task g1) ''lab_''
                then g1\<lparr> g_y := binarize (g_y g1) \<rparr> else g1);
          g3 = g2\<lparr> g_X_train := bool_index (g_X g2) (eq_mask (g_splits g2) ''train'') \<rparr>;
          g4 = g3\<lparr> g_y_train := bool_index (g_y g3) (eq_mask (g_splits g3) ''train'') \<rparr>;
          g5 = g4\<lparr> g_X_val := bool_index (g_X g4) (eq_mask (g_splits g4) ''val'') \<rparr>;
          g6 = g5\<lparr> g_y_val := bool_index (g_y g5) (eq_mask (g_splits g5) ''val'') \<rparr>;
          g7 = g6\<lparr> g_X_test := bool_index (g_X g6) (eq_mask (g_splits g6) ''test'') \<rparr>
      in g7\<lparr> g_y_test := bool_index (g_y g7) (eq_mask (g_splits g7) ''test'') \<rparr>)"

text \<open>The whole cell: the two statements before the loop, the loop, the rest.\<close>

definition cell11 :: "notebook \<Rightarrow> error \<times> notebook + notebook" where
  "cell11 g =
     (let g1 = g\<lparr> g_num_features := g_next_index g \<rparr>;
          g2 = g1\<lparr> g_X := [], g_y := [], g_splits := [] \<rparr>
      in case for_loop g2 (g_samples g2) of
           Inl failure \<Rightarrow> Inl failure
         | Inr g3 \<Rightarrow> Inr (after_loop g3))"

text \<open>The names a run leaves bound, whether it ended or raised.\<close>

definition state_after :: "error \<times> notebook + notebook \<Rightarrow> notebook" where
  "state_after r = (case r of Inl (e, g) \<Rightarrow> g | Inr g \<Rightarrow> g)"

text \<open>The arrays among the bound names.\<close>

definition arrays_of :: "notebook \<Rightarrow> arrays" where
  "arrays_of g =
     \<lparr> X_all = g_X g, y_all = g_y g, splits_all = g_splits g,
       X_train = g_X_train g, y_train = g_y_train g,
       X_val = g_X_val g, y_val = g_y_val g,
       X_test = g_X_test g, y_test = g_y_test g \<rparr>"

text \<open>What a run shows: the error it raised, or the arrays it bound.\<close>

definition outcome :: "error \<times> notebook + notebook \<Rightarrow> error + arrays" where
  "outcome r = (case r of Inl (e, g) \<Rightarrow> Inl e | Inr g \<Rightarrow> Inr (arrays_of g))"

subsection \<open>Notions used to state the properties\<close>

text \<open>The positions at which a mask holds, in increasing order (numpy's \<open>nonzero\<close>).\<close>

definition nonzero :: "bool list \<Rightarrow> nat list" where
  "nonzero msk = filter (\<lambda>i. msk ! i) [0..<length msk]"

text \<open>The rows of an input that the comparison with a tag selects.\<close>

definition rows_of :: "sample list \<Rightarrow> string \<Rightarrow> nat list" where
  "rows_of ss tag = nonzero (eq_mask (map (np_str \<circ> split) ss) tag)"

text \<open>The samples of an input that the comparison with a tag selects, in input order.\<close>

definition tagged :: "sample list \<Rightarrow> string \<Rightarrow> sample list" where
  "tagged ss tag = filter (\<lambda>s. np_str (split s) = np_str tag) ss"

section \<open>Properties of the numpy operations and of the loop\<close>

lemma fold_update_length:
  "length (fold (\<lambda>i v. v[f i := (1::int)]) idx vec) = length vec"
  by (induction idx arbitrary: vec) auto

lemma fold_update_nth:
  "j < length vec \<Longrightarrow>
   fold (\<lambda>i v. v[f i := (1::int)]) idx vec ! j = (if j \<in> f ` set idx then 1 else vec ! j)"
  by (induction idx arbitrary: vec) (auto simp: nth_list_update)

lemma multi_hot_Inr_iff:
  "multi_hot n s = Inr r \<longleftrightarrow>
     0 \<le> n \<and> list_all (in_bounds n) (feature s) \<and>
     r = fold (\<lambda>i v. v[wrap_index n i := 1]) (feature s) (replicate (nat n) 0)"
  by (auto simp: multi_hot_def np_zeros_def setitem_one_def Let_def)

lemma multi_hot_Inl_iff:
  "multi_hot n s = Inl e \<longleftrightarrow>
     (n < 0 \<and> e = ValueError) \<or>
     (0 \<le> n \<and> \<not> list_all (in_bounds n) (feature s) \<and> e = IndexError)"
  by (auto simp: multi_hot_def np_zeros_def setitem_one_def Let_def)

lemma multi_hot_length: "multi_hot n s = Inr r \<Longrightarrow> length r = nat n"
  by (simp add: multi_hot_Inr_iff fold_update_length)

lemma multi_hot_nth:
  "multi_hot n s = Inr r \<Longrightarrow> j < nat n \<Longrightarrow>
   r ! j = (if j \<in> wrap_index n ` set (feature s) then 1 else 0)"
  by (simp add: multi_hot_Inr_iff fold_update_nth)

lemma loop_Inr:
  "loop n ss (X, y, sp) = Inr acc \<Longrightarrow>
   \<exists>rows. acc = (X @ rows, y @ map label ss, sp @ map split ss) \<and>
          list_all2 (\<lambda>s r. multi_hot n s = Inr r) ss rows"
proof (induction ss arbitrary: X y sp)
  case Nil
  then show ?case by simp
next
  case (Cons s ss)
  then obtain vec where v: "multi_hot n s = Inr vec"
    and l: "loop n ss (X @ [vec], y @ [label s], sp @ [split s]) = Inr acc"
    by (auto split: sum.splits)
  from Cons.IH [OF l] obtain rows where
    "acc = ((X @ [vec]) @ rows, (y @ [label s]) @ map label ss, (sp @ [split s]) @ map split ss)"
    "list_all2 (\<lambda>s r. multi_hot n s = Inr r) ss rows" by blast
  then have "acc = (X @ (vec # rows), y @ map label (s # ss), sp @ map split (s # ss)) \<and>
          list_all2 (\<lambda>s r. multi_hot n s = Inr r) (s # ss) (vec # rows)"
    using v by simp
  then show ?case by blast
qed

lemma loop_Inl:
  "loop n ss acc = Inl e \<Longrightarrow> \<exists>s \<in> set ss. multi_hot n s = Inl e"
proof (induction ss arbitrary: acc)
  case Nil
  then show ?case by simp
next
  case (Cons s ss)
  obtain X y sp where acc: "acc = (X, y, sp)" by (cases acc) auto
  show ?case
  proof (cases "multi_hot n s")
    case (Inl e')
    with Cons.prems acc show ?thesis by simp
  next
    case (Inr vec)
    with Cons.prems acc have "loop n ss (X @ [vec], y @ [label s], sp @ [split s]) = Inl e"
      by simp
    from Cons.IH [OF this] show ?thesis by auto
  qed
qed

lemma loop_fails:
  "s \<in> set ss \<Longrightarrow> multi_hot n s = Inl e \<Longrightarrow> \<exists>e'. loop n ss acc = Inl e'"
proof (induction ss arbitrary: acc)
  case Nil
  then show ?case by simp
next
  case (Cons a ss)
  obtain X y sp where acc: "acc = (X, y, sp)" by (cases acc) auto
  show ?case
  proof (cases "multi_hot n a")
    case (Inl e')
    with acc show ?thesis by simp
  next
    case (Inr vec)
    with Cons.prems have "s \<in> set ss" by auto
    from Cons.IH [OF this Cons.prems(2)] Inr acc show ?thesis by simp
  qed
qed

lemma loop_succeeds:
  "\<forall>s \<in> set ss. \<exists>r. multi_hot n s = Inr r \<Longrightarrow> \<exists>acc'. loop n ss acc = Inr acc'"
proof (cases "loop n ss acc")
  case (Inl e)
  assume ok: "\<forall>s \<in> set ss. \<exists>r. multi_hot n s = Inr r"
  from loop_Inl [OF Inl] obtain s where "s \<in> set ss" "multi_hot n s = Inl e" by blast
  with ok show ?thesis by auto
next
  case (Inr acc')
  then show ?thesis by blast
qed

lemma materialize_Inr:
  assumes "materialize n t ss = Inr a"
  shows "list_all2 (\<lambda>s r. multi_hot n s = Inr r) ss (X_all a)"
    and "y_all a = (if startswith t ''lab_'' then binarize (map label ss) else map label ss)"
    and "splits_all a = map (np_str \<circ> split) ss"
    and "X_train a = bool_index (X_all a) (eq_mask (splits_all a) ''train'')"
    and "y_train a = bool_index (y_all a) (eq_mask (splits_all a) ''train'')"
    and "X_val a = bool_index (X_all a) (eq_mask (splits_all a) ''val'')"
    and "y_val a = bool_index (y_all a) (eq_mask (splits_all a) ''val'')"
    and "X_test a = bool_index (X_all a) (eq_mask (splits_all a) ''test'')"
    and "y_test a = bool_index (y_all a) (eq_mask (splits_all a) ''test'')"
proof -
  from assms obtain X y0 sp0 where l: "loop n ss ([], [], []) = Inr (X, y0, sp0)"
    by (auto simp: materialize_def split: sum.splits)
  from loop_Inr [OF l] have acc: "X = X" "list_all2 (\<lambda>s r. multi_hot n s = Inr r) ss X"
    "y0 = map label ss" "sp0 = map split ss" by auto
  from assms l have a: "a = \<lparr> X_all = X,
      y_all = (if startswith t ''lab_'' then binarize y0 else y0),
      splits_all = map np_str sp0,
      X_train = bool_index X (eq_mask (map np_str sp0) ''train''),
      y_train = bool_index (if startswith t ''lab_'' then binarize y0 else y0)
                  (eq_mask (map np_str sp0) ''train''),
      X_val = bool_index X (eq_mask (map np_str sp0) ''val''),
      y_val = bool_index (if startswith t ''lab_'' then binarize y0 else y0)
                  (eq_mask (map np_str sp0) ''val''),
      X_test = bool_index X (eq_mask (map np_str sp0) ''test''),
      y_test = bool_index (if startswith t ''lab_'' then binarize y0 else y0)
                  (eq_mask (map np_str sp0) ''test'') \<rparr>"
    by (simp add: materialize_def Let_def)
  show "list_all2 (\<lambda>s r. multi_hot n s = Inr r) ss (X_all a)" using a acc by simp
  show "y_all a = (if startswith t ''lab_'' then binarize (map label ss) else map label ss)"
    using a acc by simp
  show "splits_all a = map (np_str \<circ> split) ss" using a acc by simp
  show "X_train a = bool_index (X_all a) (eq_mask (splits_all a) ''train'')" using a by simp
  show "y_train a = bool_index (y_all a) (eq_mask (splits_all a) ''train'')" using a by simp
  show "X_val a = bool_index (X_all a) (eq_mask (splits_all a) ''val'')" using a by simp
  show "y_val a = bool_index (y_all a) (eq_mask (splits_all a) ''val'')" using a by simp
  show "X_test a = bool_index (X_all a) (eq_mask (splits_all a) ''test'')" using a by simp
  show "y_test a = bool_index (y_all a) (eq_mask (splits_all a) ''test'')" using a by simp
qed

lemma materialize_Inl:
  assumes "materialize n t ss = Inl e"
  shows "\<exists>s \<in> set ss. multi_hot n s = Inl e"
proof (cases "loop n ss ([], [], [])")
  case (Inl e')
  with assms have "e' = e" by (simp add: materialize_def)
  with Inl show ?thesis by (auto dest: loop_Inl)
next
  case (Inr acc')
  with assms show ?thesis
    by (cases acc') (simp add: materialize_def Let_def)
qed

lemma materialize_fails:
  "s \<in> set ss \<Longrightarrow> multi_hot n s = Inl e \<Longrightarrow> \<exists>e'. materialize n t ss = Inl e'"
  using loop_fails [of s ss n e "([], [], [])"]
  by (auto simp: materialize_def)

lemma materialize_succeeds:
  assumes "\<forall>s \<in> set ss. \<exists>r. multi_hot n s = Inr r"
  shows "\<exists>a. materialize n t ss = Inr a"
proof -
  from loop_succeeds [OF assms] obtain acc' where "loop n ss ([], [], []) = Inr acc'"
    by blast
  then show ?thesis
    by (cases acc') (simp add: materialize_def Let_def)
qed

lemma zip_as_map:
  "length a = length m \<Longrightarrow> zip a m = map (\<lambda>i. (a ! i, m ! i)) [0..<length m]"
  by (rule nth_equalityI) auto

lemma bool_index_nonzero:
  "length a = length m \<Longrightarrow> bool_index a m = map ((!) a) (nonzero m)"
  by (simp add: bool_index_def nonzero_def zip_as_map filter_map comp_def)

lemma set_nonzero: "set (nonzero m) = {i. i < length m \<and> m ! i}"
  by (auto simp: nonzero_def)

lemma sorted_nonzero: "sorted_wrt (<) (nonzero m)"
  by (simp add: nonzero_def sorted_wrt_filter)

lemma distinct_nonzero: "distinct (nonzero m)"
  by (simp add: nonzero_def)

lemma set_rows_of:
  "set (rows_of ss tag) = {i. i < length ss \<and> np_str (split (ss ! i)) = np_str tag}"
  by (auto simp: rows_of_def set_nonzero eq_mask_def)

section \<open>The claims\<close>

text \<open>
  C9. On the empty input sequence the cell runs to its end, whatever the feature-space
  size and the task name: the feature matrix, the label vector and the split-tag vector
  have no rows, and the train, val and test partitions are empty.
\<close>

theorem empty_input_materializes:
  "materialize n t [] =
     Inr \<lparr> X_all = [], y_all = [], splits_all = [],
           X_train = [], y_train = [], X_val = [], y_val = [], X_test = [], y_test = [] \<rparr>"
  by (simp add: materialize_def binarize_def bool_index_def eq_mask_def)

text \<open>
  C2. Whenever the cell runs to its end, the feature matrix has as many rows as there are
  input samples, and so have the label vector and the split-tag vector.
\<close>

theorem parallel_lengths:
  assumes "materialize n t ss = Inr a"
  shows "length (X_all a) = length ss \<and> length (y_all a) = length ss
         \<and> length (splits_all a) = length ss"
  using materialize_Inr(1-3) [OF assms]
  by (auto simp: binarize_def dest: list_all2_lengthD)

theorem parallel_lengths_witness:
  "materialize 3 ''lab_anemia''
     [\<lparr>feature = [0, 2], label = 0, split = ''train''\<rparr>,
      \<lparr>feature = [1], label = 2, split = ''test''\<rparr>,
      \<lparr>feature = [], label = 0, split = ''train''\<rparr>]
   = Inr \<lparr> X_all = [[1, 0, 1], [0, 1, 0], [0, 0, 0]], y_all = [0, 1, 0],
           splits_all = [''train'', ''test'', ''train''],
           X_train = [[1, 0, 1], [0, 0, 0]], y_train = [0, 0], X_val = [], y_val = [],
           X_test = [[0, 1, 0]], y_test = [1] \<rparr>
   \<and> length [[1, 0, 1], [0, 1, 0], [0, 0, 0 :: int]] = 3
   \<and> length [0, 1, 0 :: int] = 3
   \<and> length [''train'', ''test'', ''train''] = 3"
proof -
  have run: "materialize 3 ''lab_anemia''
     [\<lparr>feature = [0, 2], label = 0, split = ''train''\<rparr>,
      \<lparr>feature = [1], label = 2, split = ''test''\<rparr>,
      \<lparr>feature = [], label = 0, split = ''train''\<rparr>]
   = Inr \<lparr> X_all = [[1, 0, 1], [0, 1, 0], [0, 0, 0]], y_all = [0, 1, 0],
           splits_all = [''train'', ''test'', ''train''],
           X_train = [[1, 0, 1], [0, 0, 0]], y_train = [0, 0], X_val = [], y_val = [],
           X_test = [[0, 1, 0]], y_test = [1] \<rparr>"
    by code_simp
  from parallel_lengths [OF run] run show ?thesis by simp
qed

lemma wrap_index_nonneg: "0 \<le> k \<Longrightarrow> wrap_index n k = nat k"
  by (simp add: wrap_index_def)

lemma materialize_row:
  assumes "materialize n t ss = Inr a" and "i < length ss"
  shows "multi_hot n (ss ! i) = Inr (X_all a ! i)"
  using materialize_Inr(1) [OF assms(1)] assms(2)
  by (simp add: list_all2_conv_all_nth)

text \<open>
  C1. When every feature index of every sample lies in \<open>[0, num_features)\<close>, the cell runs
  to its end (on a non-empty input the size is then not negative, or is assumed so), and
  row \<open>i\<close> of the feature matrix has \<open>num_features\<close> columns, with 1 exactly at the columns
  listed in the feature indices of sample \<open>i\<close> and 0 at every other column.
\<close>

theorem rows_are_multi_hot:
  assumes "\<forall>s \<in> set ss. \<forall>k \<in> set (feature s). 0 \<le> k \<and> k < n"
  shows "((ss = [] \<or> 0 \<le> n) \<longrightarrow> (\<exists>a. materialize n t ss = Inr a)) \<and>
         (\<forall>a. materialize n t ss = Inr a \<longrightarrow>
            length (X_all a) = length ss \<and>
            (\<forall>i < length ss. length (X_all a ! i) = nat n \<and>
               (\<forall>j < nat n. X_all a ! i ! j =
                  (if int j \<in> set (feature (ss ! i)) then 1 else 0))))"
proof (intro conjI impI allI)
  assume size: "ss = [] \<or> 0 \<le> n"
  have "\<forall>s \<in> set ss. \<exists>r. multi_hot n s = Inr r"
  proof
    fix s assume s: "s \<in> set ss"
    with size have "0 \<le> n" by auto
    moreover from s assms have "\<forall>k \<in> set (feature s). - n \<le> k \<and> k < n"
      using \<open>0 \<le> n\<close> by fastforce
    ultimately show "\<exists>r. multi_hot n s = Inr r"
      by (simp add: multi_hot_Inr_iff list_all_iff in_bounds_def)
  qed
  then show "\<exists>a. materialize n t ss = Inr a"
    by (rule materialize_succeeds)
next
  fix a assume run: "materialize n t ss = Inr a"
  show "length (X_all a) = length ss"
    using materialize_Inr(1) [OF run] by (auto dest: list_all2_lengthD)
next
  fix a i assume run: "materialize n t ss = Inr a" and i: "i < length ss"
  show "length (X_all a ! i) = nat n"
    using materialize_row [OF run i] by (rule multi_hot_length)
next
  fix a i j
  assume run: "materialize n t ss = Inr a" and i: "i < length ss" and j: "j < nat n"
  from i assms have nonneg: "\<forall>k \<in> set (feature (ss ! i)). 0 \<le> k"
    by (meson nth_mem)
  have "(j \<in> wrap_index n ` set (feature (ss ! i))) = (int j \<in> set (feature (ss ! i)))"
  proof
    assume "j \<in> wrap_index n ` set (feature (ss ! i))"
    then obtain k where k: "k \<in> set (feature (ss ! i))" "j = wrap_index n k" by blast
    with nonneg have "int j = k" by (simp add: wrap_index_nonneg)
    with k show "int j \<in> set (feature (ss ! i))" by simp
  next
    assume m: "int j \<in> set (feature (ss ! i))"
    have "wrap_index n (int j) = j" by (simp add: wrap_index_def)
    with m show "j \<in> wrap_index n ` set (feature (ss ! i))" by force
  qed
  with multi_hot_nth [OF materialize_row [OF run i] j]
  show "X_all a ! i ! j = (if int j \<in> set (feature (ss ! i)) then 1 else 0)"
    by simp
qed

theorem rows_are_multi_hot_witness:
  "list_all (\<lambda>s. list_all (\<lambda>k. 0 \<le> k \<and> k < 3) (feature s))
     [\<lparr>feature = [0, 2], label = 0, split = ''train''\<rparr>,
      \<lparr>feature = [1], label = 2, split = ''test''\<rparr>,
      \<lparr>feature = [], label = 0, split = ''train''\<rparr>] \<and>
   (\<exists>a. materialize 3 ''guo_icu''
           [\<lparr>feature = [0, 2], label = 0, split = ''train''\<rparr>,
            \<lparr>feature = [1], label = 2, split = ''test''\<rparr>,
            \<lparr>feature = [], label = 0, split = ''train''\<rparr>] = Inr a \<and>
        length (X_all a) = 3 \<and> length (X_all a ! 1) = 3 \<and>
        X_all a ! 1 ! 0 = 0 \<and> X_all a ! 1 ! 1 = 1 \<and> X_all a ! 1 ! 2 = 0)"
proof -
  let ?ss = "[\<lparr>feature = [0, 2], label = 0, split = ''train''\<rparr>,
              \<lparr>feature = [1], label = 2, split = ''test''\<rparr>,
              \<lparr>feature = [], label = 0, split = ''train''\<rparr>]"
  have h: "\<forall>s \<in> set ?ss. \<forall>k \<in> set (feature s). 0 \<le> k \<and> k < 3"
    by simp
  from h have la: "list_all (\<lambda>s. list_all (\<lambda>k. 0 \<le> k \<and> k < 3) (feature s)) ?ss"
    unfolding list_all_iff .
  note r = rows_are_multi_hot [OF h, of "''guo_icu''"]
  from r have ex: "\<exists>a. materialize 3 ''guo_icu'' ?ss = Inr a" by simp
  have "length (X_all a) = 3 \<and> length (X_all a ! 1) = 3 \<and>
        X_all a ! 1 ! 0 = 0 \<and> X_all a ! 1 ! 1 = 1 \<and> X_all a ! 1 ! 2 = 0"
    if run: "materialize 3 ''guo_icu'' ?ss = Inr a" for a
  proof -
    from r run have len: "length (X_all a) = length ?ss"
      and rows: "\<forall>i < length ?ss. length (X_all a ! i) = nat 3 \<and>
               (\<forall>j < nat 3. X_all a ! i ! j =
                  (if int j \<in> set (feature (?ss ! i)) then 1 else 0))"
      by blast+
    from rows have r1: "length (X_all a ! 1) = nat 3 \<and>
               (\<forall>j < nat 3. X_all a ! 1 ! j =
                  (if int j \<in> set (feature (?ss ! 1)) then 1 else 0))"
      by simp
    then have "X_all a ! 1 ! 0 = 0" "X_all a ! 1 ! 1 = 1" "X_all a ! 1 ! 2 = 0"
      by simp_all
    with len r1 show ?thesis by simp
  qed
  with la ex show ?thesis by blast
qed

lemma materialize_IndexError:
  assumes "0 \<le> n" and "s \<in> set ss" and "\<not> list_all (in_bounds n) (feature s)"
  shows "materialize n t ss = Inl IndexError"
proof -
  from assms(1,3) have "multi_hot n s = Inl IndexError"
    by (simp add: multi_hot_Inl_iff)
  from materialize_fails [OF assms(2) this] obtain e where e: "materialize n t ss = Inl e"
    by blast
  from materialize_Inl [OF e] obtain s' where "multi_hot n s' = Inl e" by blast
  with assms(1) have "e = IndexError" by (simp add: multi_hot_Inl_iff)
  with e show ?thesis by simp
qed

lemma wrap_index_eq:
  assumes "in_bounds n k" and "j < nat n"
  shows "(j = wrap_index n k) = (k = int j \<or> k = int j - n)"
  using assms by (auto simp: in_bounds_def wrap_index_def)

text \<open>
  C6. With a feature space of size 0, an input that holds a sample with at least one
  feature index makes the cell raise IndexError: no arrays are produced.
\<close>

theorem zero_width_index_raises:
  assumes "s \<in> set ss" and "feature s \<noteq> []"
  shows "materialize 0 t ss = Inl IndexError"
proof -
  from assms(2) have "\<not> list_all (in_bounds 0) (feature s)"
    by (cases "feature s") (simp_all add: in_bounds_def)
  with assms(1) show ?thesis
    by (simp add: materialize_IndexError)
qed

theorem zero_width_index_raises_witness:
  "\<lparr>feature = [0], label = 1, split = ''train''\<rparr>
     \<in> set [\<lparr>feature = [], label = 0, split = ''val''\<rparr>,
            \<lparr>feature = [0], label = 1, split = ''train''\<rparr>]
   \<and> feature \<lparr>feature = [0], label = 1, split = ''train''\<rparr> \<noteq> []
   \<and> materialize 0 ''guo_icu''
       [\<lparr>feature = [], label = 0, split = ''val''\<rparr>,
        \<lparr>feature = [0], label = 1, split = ''train''\<rparr>] = Inl IndexError"
  using zero_width_index_raises
    [of "\<lparr>feature = [0], label = 1, split = ''train''\<rparr>"
        "[\<lparr>feature = [], label = 0, split = ''val''\<rparr>,
          \<lparr>feature = [0], label = 1, split = ''train''\<rparr>]" "''guo_icu''"]
  by simp

text \<open>
  C5. The claim reads: a feature index outside \<open>[0, num_features)\<close> makes the cell fail
  with an index error. numpy reads an index \<open>k\<close> with \<open>- num_features \<le> k < 0\<close> from the
  end of the row: with three columns the index \<open>-1\<close> sets the last column, and the cell
  runs to its end.
\<close>

theorem negative_index_wraps:
  "\<not> (0 \<le> (- 1 :: int) \<and> (- 1 :: int) < 3) \<and>
   materialize 3 ''guo_icu'' [\<lparr>feature = [- 1], label = 1, split = ''train''\<rparr>]
   = Inr \<lparr> X_all = [[0, 0, 1]], y_all = [1], splits_all = [''train''],
           X_train = [[0, 0, 1]], y_train = [1], X_val = [], y_val = [],
           X_test = [], y_test = [] \<rparr>"
  by code_simp

text \<open>
  C5, as the cell computes it. A sample with a feature index \<open>k\<close> such that
  \<open>k \<ge> num_features\<close> or \<open>k < - num_features\<close> makes the cell fail, with IndexError when
  the size is not negative, and no arrays are produced. When the size is not negative and
  every index \<open>k\<close> satisfies \<open>- num_features \<le> k < num_features\<close>, the cell runs to its end
  and column \<open>j\<close> of row \<open>i\<close> is 1 exactly when \<open>j\<close> or \<open>j - num_features\<close> is an index of
  sample \<open>i\<close>.
\<close>

theorem index_beyond_bounds_raises:
  "(s \<in> set ss \<and> k \<in> set (feature s) \<and> (k < - n \<or> n \<le> k) \<longrightarrow>
      (\<exists>e. materialize n t ss = Inl e) \<and>
      (0 \<le> n \<longrightarrow> materialize n t ss = Inl IndexError)) \<and>
   (0 \<le> n \<and> (\<forall>s \<in> set ss. \<forall>k \<in> set (feature s). - n \<le> k \<and> k < n) \<longrightarrow>
      (\<exists>a. materialize n t ss = Inr a \<and>
         (\<forall>i < length ss. \<forall>j < nat n.
            X_all a ! i ! j =
              (if int j \<in> set (feature (ss ! i)) \<or> int j - n \<in> set (feature (ss ! i))
               then 1 else 0))))"
proof (intro conjI impI)
  assume bad: "s \<in> set ss \<and> k \<in> set (feature s) \<and> (k < - n \<or> n \<le> k)"
  then have "\<not> in_bounds n k"
    by (auto simp: in_bounds_def)
  with bad have nb: "\<not> list_all (in_bounds n) (feature s)"
    unfolding list_all_iff by blast
  then have "\<exists>e. multi_hot n s = Inl e"
    by (cases "n < 0") (simp_all add: multi_hot_Inl_iff)
  with bad show "\<exists>e. materialize n t ss = Inl e"
    by (blast dest: materialize_fails)
  show "materialize n t ss = Inl IndexError" if "0 \<le> n"
    using that bad nb by (blast intro: materialize_IndexError)
next
  assume ok: "0 \<le> n \<and> (\<forall>s \<in> set ss. \<forall>k \<in> set (feature s). - n \<le> k \<and> k < n)"
  then have inb: "\<forall>s \<in> set ss. list_all (in_bounds n) (feature s)"
    by (simp add: list_all_iff in_bounds_def)
  with ok have "\<forall>s \<in> set ss. \<exists>r. multi_hot n s = Inr r"
    by (simp add: multi_hot_Inr_iff)
  then obtain a where run: "materialize n t ss = Inr a"
    using materialize_succeeds by blast
  have "X_all a ! i ! j =
          (if int j \<in> set (feature (ss ! i)) \<or> int j - n \<in> set (feature (ss ! i))
           then 1 else 0)"
    if i: "i < length ss" and j: "j < nat n" for i j
  proof -
    from i have "ss ! i \<in> set ss" by simp
    with inb have b: "\<forall>k \<in> set (feature (ss ! i)). in_bounds n k"
      unfolding list_all_iff by blast
    have "(j \<in> wrap_index n ` set (feature (ss ! i))) =
          (\<exists>k \<in> set (feature (ss ! i)). j = wrap_index n k)"
      by blast
    also have "\<dots> = (\<exists>k \<in> set (feature (ss ! i)). k = int j \<or> k = int j - n)"
    proof (rule bex_cong [OF refl])
      fix k assume "k \<in> set (feature (ss ! i))"
      with b have "in_bounds n k" by blast
      then show "(j = wrap_index n k) = (k = int j \<or> k = int j - n)"
        using j by (rule wrap_index_eq)
    qed
    also have "\<dots> =
          (int j \<in> set (feature (ss ! i)) \<or> int j - n \<in> set (feature (ss ! i)))"
      by blast
    finally have "(j \<in> wrap_index n ` set (feature (ss ! i))) =
          (int j \<in> set (feature (ss ! i)) \<or> int j - n \<in> set (feature (ss ! i)))" .
    with multi_hot_nth [OF materialize_row [OF run i] j] show ?thesis by simp
  qed
  with run show "\<exists>a. materialize n t ss = Inr a \<and>
         (\<forall>i < length ss. \<forall>j < nat n.
            X_all a ! i ! j =
              (if int j \<in> set (feature (ss ! i)) \<or> int j - n \<in> set (feature (ss ! i))
               then 1 else 0))"
    by blast
qed

theorem index_beyond_bounds_raises_witness:
  "(\<lparr>feature = [1, 3], label = 1, split = ''train''\<rparr>
      \<in> set [\<lparr>feature = [0], label = 0, split = ''val''\<rparr>,
             \<lparr>feature = [1, 3], label = 1, split = ''train''\<rparr>]
    \<and> (3::int) \<in> set (feature \<lparr>feature = [1, 3], label = 1, split = ''train''\<rparr>)
    \<and> ((3::int) < - 3 \<or> (3::int) \<le> 3))
   \<and> materialize 3 ''guo_icu''
        [\<lparr>feature = [0], label = 0, split = ''val''\<rparr>,
         \<lparr>feature = [1, 3], label = 1, split = ''train''\<rparr>] = Inl IndexError
   \<and> ((0::int) \<le> 3 \<and>
       list_all (\<lambda>s. list_all (\<lambda>k. - 3 \<le> k \<and> k < 3) (feature s))
         [\<lparr>feature = [- 1, 0], label = 1, split = ''train''\<rparr>])
   \<and> (\<exists>a. materialize 3 ''guo_icu'' [\<lparr>feature = [- 1, 0], label = 1, split = ''train''\<rparr>]
            = Inr a \<and> X_all a ! 0 ! 2 = 1 \<and> X_all a ! 0 ! 1 = 0)"
proof -
  let ?s = "\<lparr>feature = [1, 3], label = 1, split = ''train''\<rparr>"
  let ?ss = "[\<lparr>feature = [0], label = 0, split = ''val''\<rparr>, ?s]"
  let ?ws = "[\<lparr>feature = [- 1, 0], label = 1, split = ''train''\<rparr>]"
  have bad: "?s \<in> set ?ss \<and> (3::int) \<in> set (feature ?s) \<and> ((3::int) < - 3 \<or> (3::int) \<le> 3)"
    by simp
  have ok: "(0::int) \<le> 3 \<and> (\<forall>s \<in> set ?ws. \<forall>k \<in> set (feature s). - 3 \<le> k \<and> k < 3)"
    by simp
  from index_beyond_bounds_raises [of ?s ?ss 3 3 "''guo_icu''"] bad
  have fails: "materialize 3 ''guo_icu'' ?ss = Inl IndexError"
    by simp
  from index_beyond_bounds_raises [of ?s ?ws 3 3 "''guo_icu''"] ok
  obtain a where run: "materialize 3 ''guo_icu'' ?ws = Inr a"
    and cols: "\<forall>i < length ?ws. \<forall>j < nat 3.
            X_all a ! i ! j =
              (if int j \<in> set (feature (?ws ! i)) \<or> int j - 3 \<in> set (feature (?ws ! i))
               then 1 else 0)"
    by blast
  from cols have "X_all a ! 0 ! 2 = 1" "X_all a ! 0 ! 1 = 0"
    by simp_all
  with run have "\<exists>a. materialize 3 ''guo_icu'' ?ws = Inr a \<and> X_all a ! 0 ! 2 = 1
      \<and> X_all a ! 0 ! 1 = 0"
    by blast
  moreover from ok have "(0::int) \<le> 3 \<and>
       list_all (\<lambda>s. list_all (\<lambda>k. - 3 \<le> k \<and> k < 3) (feature s)) ?ws"
    unfolding list_all_iff .
  ultimately show ?thesis using bad fails by blast
qed

lemma multi_hot_set_cong:
  assumes "set (feature s1) = set (feature s2)"
  shows "multi_hot n s1 = multi_hot n s2"
proof (cases "0 \<le> n \<and> list_all (in_bounds n) (feature s1)")
  case True
  with assms have ok2: "0 \<le> n \<and> list_all (in_bounds n) (feature s2)"
    by (simp add: list_all_iff)
  let ?r1 = "fold (\<lambda>i v. v[wrap_index n i := 1]) (feature s1) (replicate (nat n) (0::int))"
  let ?r2 = "fold (\<lambda>i v. v[wrap_index n i := 1]) (feature s2) (replicate (nat n) (0::int))"
  have "?r1 = ?r2"
  proof (rule nth_equalityI)
    show "length ?r1 = length ?r2"
      by (simp add: fold_update_length)
  next
    fix j assume "j < length ?r1"
    then have j: "j < length (replicate (nat n) (0::int))"
      by (simp add: fold_update_length)
    show "?r1 ! j = ?r2 ! j"
      unfolding fold_update_nth [OF j] assms ..
  qed
  moreover from True have "multi_hot n s1 = Inr ?r1" by (simp add: multi_hot_Inr_iff)
  moreover from ok2 have "multi_hot n s2 = Inr ?r2" by (simp add: multi_hot_Inr_iff)
  ultimately show ?thesis by simp
next
  case False
  with assms have bad2: "\<not> (0 \<le> n \<and> list_all (in_bounds n) (feature s2))"
    by (simp add: list_all_iff)
  from False have "multi_hot n s1 = Inl (if n < 0 then ValueError else IndexError)"
    by (auto simp: multi_hot_Inl_iff)
  moreover from bad2 have "multi_hot n s2 = Inl (if n < 0 then ValueError else IndexError)"
    by (auto simp: multi_hot_Inl_iff)
  ultimately show ?thesis by simp
qed

lemma loop_map_cong:
  assumes "\<forall>s \<in> set ss. multi_hot n (g s) = multi_hot n s \<and> label (g s) = label s
             \<and> split (g s) = split s"
  shows "loop n (map g ss) acc = loop n ss acc"
  using assms
proof (induction ss arbitrary: acc)
  case Nil
  then show ?case by simp
next
  case (Cons s ss)
  obtain X y sp where acc: "acc = (X, y, sp)" by (cases acc) auto
  from Cons.prems have h: "multi_hot n (g s) = multi_hot n s" "label (g s) = label s"
    "split (g s) = split s" by simp_all
  from Cons.prems have rest: "\<forall>s \<in> set ss. multi_hot n (g s) = multi_hot n s
    \<and> label (g s) = label s \<and> split (g s) = split s" by simp
  show ?case
    by (simp add: acc h Cons.IH [OF rest] split: sum.splits)
qed

text \<open>
  C10. Whenever the cell runs to its end, every entry of the feature matrix is 0 or 1.
  Removing the repeated feature indices of every sample changes nothing: the cell then
  fails with the same error or binds the same arrays.
\<close>

theorem entries_binary_duplicates_absorbed:
  "(\<forall>a. materialize n t ss = Inr a \<longrightarrow>
      (\<forall>row \<in> set (X_all a). \<forall>v \<in> set row. v = 0 \<or> v = 1)) \<and>
   materialize n t (map (\<lambda>s. s\<lparr>feature := remdups (feature s)\<rparr>) ss) = materialize n t ss"
proof (intro conjI allI impI ballI)
  fix a row v
  assume run: "materialize n t ss = Inr a" and row: "row \<in> set (X_all a)"
    and v: "v \<in> set row"
  from row obtain i where i: "i < length (X_all a)" "row = X_all a ! i"
    by (auto simp: in_set_conv_nth)
  from materialize_Inr(1) [OF run] have "length (X_all a) = length ss"
    by (auto dest: list_all2_lengthD)
  with i have mh: "multi_hot n (ss ! i) = Inr row"
    using materialize_row [OF run] by simp
  from v obtain j where j: "j < length row" "v = row ! j"
    by (auto simp: in_set_conv_nth)
  with multi_hot_length [OF mh] have "j < nat n" by simp
  from multi_hot_nth [OF mh this] j show "v = 0 \<or> v = 1"
    by (simp split: if_splits)
next
  have same: "multi_hot n (s\<lparr>feature := remdups (feature s)\<rparr>) = multi_hot n s" for s
    by (rule multi_hot_set_cong) simp
  have "loop n (map (\<lambda>s. s\<lparr>feature := remdups (feature s)\<rparr>) ss) ([], [], [])
        = loop n ss ([], [], [])"
    by (rule loop_map_cong) (simp add: same)
  then show "materialize n t (map (\<lambda>s. s\<lparr>feature := remdups (feature s)\<rparr>) ss)
             = materialize n t ss"
    by (simp add: materialize_def)
qed

theorem entries_binary_duplicates_absorbed_witness:
  "materialize 3 ''guo_icu'' [\<lparr>feature = [2, 0, 2, 2], label = 1, split = ''val''\<rparr>]
   = Inr \<lparr> X_all = [[1, 0, 1]], y_all = [1], splits_all = [''val''],
           X_train = [], y_train = [], X_val = [[1, 0, 1]], y_val = [1],
           X_test = [], y_test = [] \<rparr> \<and>
   list_all (\<lambda>row. list_all (\<lambda>v. v = 0 \<or> v = 1) row) [[1, 0, 1 :: int]] \<and>
   materialize 3 ''guo_icu'' [\<lparr>feature = [0, 2], label = 1, split = ''val''\<rparr>]
   = materialize 3 ''guo_icu'' [\<lparr>feature = [2, 0, 2, 2], label = 1, split = ''val''\<rparr>]"
proof -
  let ?ss = "[\<lparr>feature = [2, 0, 2, 2], label = 1, split = ''val''\<rparr>]"
  have run: "materialize 3 ''guo_icu'' ?ss
    = Inr \<lparr> X_all = [[1, 0, 1]], y_all = [1], splits_all = [''val''],
            X_train = [], y_train = [], X_val = [[1, 0, 1]], y_val = [1],
            X_test = [], y_test = [] \<rparr>"
    by code_simp
  note inst = entries_binary_duplicates_absorbed [of 3 "''guo_icu''" ?ss]
  from inst run have bin: "\<forall>row \<in> set [[1, 0, 1 :: int]]. \<forall>v \<in> set row. v = 0 \<or> v = 1"
    by fastforce
  from inst have "materialize 3 ''guo_icu'' (map (\<lambda>s. s\<lparr>feature := remdups (feature s)\<rparr>) ?ss)
        = materialize 3 ''guo_icu'' ?ss"
    by blast
  then have "materialize 3 ''guo_icu'' [\<lparr>feature = [0, 2], label = 1, split = ''val''\<rparr>]
        = materialize 3 ''guo_icu'' ?ss"
    by simp
  moreover from bin
  have "list_all (\<lambda>row. list_all (\<lambda>v. v = 0 \<or> v = 1) row) [[1, 0, 1 :: int]]"
    unfolding list_all_iff .
  ultimately show ?thesis using run by blast
qed

lemma np_str_tags:
  "np_str ''train'' = ''train''" "np_str ''val'' = ''val''" "np_str ''test'' = ''test''"
  by (simp_all add: np_str_def)

lemma length_nonzero: "length (nonzero m) = length (filter id m)"
proof -
  have "filter id (map ((!) m) [0..<length m])
        = map ((!) m) (filter (id \<circ> (!) m) [0..<length m])"
    by (rule filter_map)
  then have "length (filter id (map ((!) m) [0..<length m]))
             = length (filter (\<lambda>i. m ! i) [0..<length m])"
    by (simp only: length_map comp_def id_apply)
  then show ?thesis
    by (simp add: nonzero_def map_nth)
qed

lemma length_rows_of:
  "length (rows_of ss tag) = length (filter (\<lambda>s. np_str (split s) = np_str tag) ss)"
  by (simp add: rows_of_def length_nonzero eq_mask_def filter_map comp_def)

lemma partition_rows:
  assumes "materialize n t ss = Inr a"
  shows "X_train a = map ((!) (X_all a)) (rows_of ss ''train'')"
    and "y_train a = map ((!) (y_all a)) (rows_of ss ''train'')"
    and "X_val a = map ((!) (X_all a)) (rows_of ss ''val'')"
    and "y_val a = map ((!) (y_all a)) (rows_of ss ''val'')"
    and "X_test a = map ((!) (X_all a)) (rows_of ss ''test'')"
    and "y_test a = map ((!) (y_all a)) (rows_of ss ''test'')"
proof -
  note m = materialize_Inr [OF assms]
  from m(1) have lx: "length (X_all a) = length ss" by (auto dest: list_all2_lengthD)
  from m(2) have ly: "length (y_all a) = length ss" by (simp add: binarize_def)
  have lm: "length (eq_mask (splits_all a) tag) = length ss" for tag
    by (simp add: m(3) eq_mask_def)
  have r: "rows_of ss tag = nonzero (eq_mask (splits_all a) tag)" for tag
    by (simp add: rows_of_def m(3))
  show "X_train a = map ((!) (X_all a)) (rows_of ss ''train'')"
    unfolding r m(4) by (rule bool_index_nonzero) (simp add: lx lm)
  show "y_train a = map ((!) (y_all a)) (rows_of ss ''train'')"
    unfolding r m(5) by (rule bool_index_nonzero) (simp add: ly lm)
  show "X_val a = map ((!) (X_all a)) (rows_of ss ''val'')"
    unfolding r m(6) by (rule bool_index_nonzero) (simp add: lx lm)
  show "y_val a = map ((!) (y_all a)) (rows_of ss ''val'')"
    unfolding r m(7) by (rule bool_index_nonzero) (simp add: ly lm)
  show "X_test a = map ((!) (X_all a)) (rows_of ss ''test'')"
    unfolding r m(8) by (rule bool_index_nonzero) (simp add: lx lm)
  show "y_test a = map ((!) (y_all a)) (rows_of ss ''test'')"
    unfolding r m(9) by (rule bool_index_nonzero) (simp add: ly lm)
qed

lemma subseq_bool_index: "subseq (bool_index xs m) xs"
proof -
  have "subseq (map fst (filter snd (zip xs m))) (map fst (zip xs m))"
    by (intro subseq_map subseq_filter_left)
  moreover have "subseq (map fst (zip xs m)) xs"
    by (simp add: map_fst_zip_take prefix_imp_subseq take_is_prefix)
  ultimately show ?thesis
    unfolding bool_index_def by (rule subseq_order.trans)
qed

lemma filter_three_way:
  assumes "\<forall>s. \<not> (P s \<and> Q s) \<and> \<not> (P s \<and> R s) \<and> \<not> (Q s \<and> R s)"
  shows "length (filter P ss) + length (filter Q ss) + length (filter R ss)
         = length (filter (\<lambda>s. P s \<or> Q s \<or> R s) ss)"
  using assms by (induction ss) auto

text \<open>
  C4. The claim reads: there is a partition for each split tag observed, and every row is
  in exactly one partition. The cell builds the train, val and test partitions only; a
  sample with any other tag is in none of them, and the partition sizes then sum to less
  than the number of samples.
\<close>

theorem other_tag_in_no_partition:
  "materialize 1 ''guo_icu'' [\<lparr>feature = [0], label = 1, split = ''held_out''\<rparr>]
   = Inr \<lparr> X_all = [[1]], y_all = [1], splits_all = [''held_out''],
           X_train = [], y_train = [], X_val = [], y_val = [],
           X_test = [], y_test = [] \<rparr>
   \<and> length ([] :: int list list) + length ([] :: int list list)
       + length ([] :: int list list)
       < length [\<lparr>feature = [0], label = 1, split = ''held_out''\<rparr>]"
  by code_simp

text \<open>
  C4, as the cell computes it. Whenever the cell runs to its end, there are exactly the
  train, val and test partitions, each holding the rows and labels at the positions of the
  samples with that tag, each position once. No position is in two partitions; a position
  is in one of them exactly when its tag is train, val or test; the partition sizes sum to
  the number of samples with one of these tags, hence to the number of samples when no
  other tag occurs.
\<close>

theorem fixed_partitions_disjoint:
  assumes "materialize n t ss = Inr a"
  shows "(X_train a = map ((!) (X_all a)) (rows_of ss ''train'') \<and>
          y_train a = map ((!) (y_all a)) (rows_of ss ''train'') \<and>
          X_val a = map ((!) (X_all a)) (rows_of ss ''val'') \<and>
          y_val a = map ((!) (y_all a)) (rows_of ss ''val'') \<and>
          X_test a = map ((!) (X_all a)) (rows_of ss ''test'') \<and>
          y_test a = map ((!) (y_all a)) (rows_of ss ''test'')) \<and>
         (distinct (rows_of ss ''train'') \<and> distinct (rows_of ss ''val'')
          \<and> distinct (rows_of ss ''test'')) \<and>
         (set (rows_of ss ''train'') \<inter> set (rows_of ss ''val'') = {} \<and>
          set (rows_of ss ''train'') \<inter> set (rows_of ss ''test'') = {} \<and>
          set (rows_of ss ''val'') \<inter> set (rows_of ss ''test'') = {}) \<and>
         set (rows_of ss ''train'') \<union> set (rows_of ss ''val'') \<union> set (rows_of ss ''test'')
           = {i. i < length ss \<and> np_str (split (ss ! i)) \<in> {''train'', ''val'', ''test''}} \<and>
         length (X_train a) + length (X_val a) + length (X_test a)
           = length (filter (\<lambda>s. np_str (split s) \<in> {''train'', ''val'', ''test''}) ss) \<and>
         length (y_train a) + length (y_val a) + length (y_test a)
           = length (filter (\<lambda>s. np_str (split s) \<in> {''train'', ''val'', ''test''}) ss) \<and>
         ((\<forall>s \<in> set ss. np_str (split s) \<in> {''train'', ''val'', ''test''}) \<longrightarrow>
            length (X_train a) + length (X_val a) + length (X_test a) = length ss \<and>
            length (y_train a) + length (y_val a) + length (y_test a) = length ss)"
proof -
  note p = partition_rows [OF assms]
  have d: "distinct (rows_of ss tag)" for tag
    by (simp add: rows_of_def distinct_nonzero)
  have disj: "set (rows_of ss ''train'') \<inter> set (rows_of ss ''val'') = {}"
    "set (rows_of ss ''train'') \<inter> set (rows_of ss ''test'') = {}"
    "set (rows_of ss ''val'') \<inter> set (rows_of ss ''test'') = {}"
    by (auto simp: set_rows_of np_str_tags)
  have cover: "set (rows_of ss ''train'') \<union> set (rows_of ss ''val'') \<union> set (rows_of ss ''test'')
      = {i. i < length ss \<and> np_str (split (ss ! i)) \<in> {''train'', ''val'', ''test''}}"
    by (auto simp: set_rows_of np_str_tags)
  have "length (rows_of ss ''train'') + length (rows_of ss ''val'') + length (rows_of ss ''test'')
      = length (filter (\<lambda>s. np_str (split s) = ''train'' \<or> np_str (split s) = ''val''
                \<or> np_str (split s) = ''test'') ss)"
    unfolding length_rows_of np_str_tags
    by (rule filter_three_way) simp
  then have total: "length (rows_of ss ''train'') + length (rows_of ss ''val'')
      + length (rows_of ss ''test'')
      = length (filter (\<lambda>s. np_str (split s) \<in> {''train'', ''val'', ''test''}) ss)"
    by simp
  have sx: "length (X_train a) + length (X_val a) + length (X_test a)
           = length (filter (\<lambda>s. np_str (split s) \<in> {''train'', ''val'', ''test''}) ss)"
    using total by (simp add: p)
  have sy: "length (y_train a) + length (y_val a) + length (y_test a)
           = length (filter (\<lambda>s. np_str (split s) \<in> {''train'', ''val'', ''test''}) ss)"
    using total by (simp add: p)
  have full: "length (X_train a) + length (X_val a) + length (X_test a) = length ss \<and>
            length (y_train a) + length (y_val a) + length (y_test a) = length ss"
    if "\<forall>s \<in> set ss. np_str (split s) \<in> {''train'', ''val'', ''test''}"
  proof -
    from that have "filter (\<lambda>s. np_str (split s) \<in> {''train'', ''val'', ''test''}) ss = ss"
      by (simp only: filter_True)
    with sx sy show ?thesis by simp
  qed
  from full have full':
    "(\<forall>s \<in> set ss. np_str (split s) \<in> {''train'', ''val'', ''test''}) \<longrightarrow>
       length (X_train a) + length (X_val a) + length (X_test a) = length ss \<and>
       length (y_train a) + length (y_val a) + length (y_test a) = length ss"
    by (rule impI)
  show ?thesis
    by (intro conjI p d disj cover sx sy full')
qed

theorem fixed_partitions_disjoint_witness:
  "materialize 3 ''lab_anemia''
     [\<lparr>feature = [0, 2], label = 0, split = ''train''\<rparr>,
      \<lparr>feature = [1], label = 2, split = ''test''\<rparr>,
      \<lparr>feature = [], label = 0, split = ''train''\<rparr>]
   = Inr \<lparr> X_all = [[1, 0, 1], [0, 1, 0], [0, 0, 0]], y_all = [0, 1, 0],
           splits_all = [''train'', ''test'', ''train''],
           X_train = [[1, 0, 1], [0, 0, 0]], y_train = [0, 0], X_val = [], y_val = [],
           X_test = [[0, 1, 0]], y_test = [1] \<rparr>
   \<and> list_all (\<lambda>s. np_str (split s) \<in> {''train'', ''val'', ''test''})
         [\<lparr>feature = [0, 2], label = 0, split = ''train''\<rparr>,
          \<lparr>feature = [1], label = 2, split = ''test''\<rparr>,
          \<lparr>feature = [], label = 0, split = ''train''\<rparr>]
   \<and> set (rows_of [\<lparr>feature = [0, 2], label = 0, split = ''train''\<rparr>,
                    \<lparr>feature = [1], label = 2, split = ''test''\<rparr>,
                    \<lparr>feature = [], label = 0, split = ''train''\<rparr>] ''train'')
       \<inter> set (rows_of [\<lparr>feature = [0, 2], label = 0, split = ''train''\<rparr>,
                    \<lparr>feature = [1], label = 2, split = ''test''\<rparr>,
                    \<lparr>feature = [], label = 0, split = ''train''\<rparr>] ''test'') = {}
   \<and> length [[1, 0, 1], [0, 0, 0 :: int]] + length ([] :: int list list)
         + length [[0, 1, 0 :: int]]
       = length [\<lparr>feature = [0, 2], label = 0, split = ''train''\<rparr>,
                 \<lparr>feature = [1], label = 2, split = ''test''\<rparr>,
                 \<lparr>feature = [], label = 0, split = ''train''\<rparr>]"
proof -
  let ?ss = "[\<lparr>feature = [0, 2], label = 0, split = ''train''\<rparr>,
      \<lparr>feature = [1], label = 2, split = ''test''\<rparr>,
      \<lparr>feature = [], label = 0, split = ''train''\<rparr>]"
  have run: "materialize 3 ''lab_anemia'' ?ss
   = Inr \<lparr> X_all = [[1, 0, 1], [0, 1, 0], [0, 0, 0]], y_all = [0, 1, 0],
           splits_all = [''train'', ''test'', ''train''],
           X_train = [[1, 0, 1], [0, 0, 0]], y_train = [0, 0], X_val = [], y_val = [],
           X_test = [[0, 1, 0]], y_test = [1] \<rparr>"
    by code_simp
  have tags: "\<forall>s \<in> set ?ss. np_str (split s) \<in> {''train'', ''val'', ''test''}"
    by (simp add: np_str_def)
  note rest = fixed_partitions_disjoint [OF run, THEN conjunct2, THEN conjunct2]
  have disj: "set (rows_of ?ss ''train'') \<inter> set (rows_of ?ss ''test'') = {}"
    by (rule rest [THEN conjunct1, THEN conjunct2, THEN conjunct1])
  note full = rest [THEN conjunct2, THEN conjunct2, THEN conjunct2, THEN conjunct2,
      THEN mp, OF tags, THEN conjunct1]
  have sizes: "length [[1, 0, 1], [0, 0, 0 :: int]] + length ([] :: int list list)
         + length [[0, 1, 0 :: int]] = length ?ss"
    using full unfolding arrays.select_convs .
  from tags have tags': "list_all (\<lambda>s. np_str (split s) \<in> {''train'', ''val'', ''test''}) ?ss"
    unfolding list_all_iff .
  from run tags' disj sizes show ?thesis
    by (intro conjI)
qed

lemma y_all_nth:
  assumes "materialize n t ss = Inr a" and "i < length ss"
  shows "y_all a ! i = (if startswith t ''lab_'' \<and> 1 \<le> label (ss ! i) then 1
                        else label (ss ! i))"
  using materialize_Inr(2) [OF assms(1)] assms(2)
  by (simp add: binarize_def)

text \<open>
  C3. Whenever the cell runs to its end: on a task whose name starts with \<open>lab_\<close>, the
  output label of every sample whose input label is not negative (no label is negative in
  this domain) is 1 when the input label is at least 1 and 0 otherwise; on any other task
  every output label is the input label unchanged.
\<close>

theorem labels_binarized:
  assumes "materialize n t ss = Inr a"
  shows "length (y_all a) = length ss \<and>
         (startswith t ''lab_'' \<longrightarrow>
            (\<forall>i < length ss. 0 \<le> label (ss ! i) \<longrightarrow>
               y_all a ! i = (if 1 \<le> label (ss ! i) then 1 else 0))) \<and>
         (\<not> startswith t ''lab_'' \<longrightarrow>
            (\<forall>i < length ss. y_all a ! i = label (ss ! i)))"
proof (intro conjI impI allI)
  show "length (y_all a) = length ss"
    using materialize_Inr(2) [OF assms] by (simp add: binarize_def)
next
  fix i
  assume "startswith t ''lab_''" and "i < length ss" and "0 \<le> label (ss ! i)"
  then show "y_all a ! i = (if 1 \<le> label (ss ! i) then 1 else 0)"
    using y_all_nth [OF assms, of i] by simp
next
  fix i
  assume "\<not> startswith t ''lab_''" and "i < length ss"
  then show "y_all a ! i = label (ss ! i)"
    using y_all_nth [OF assms, of i] by simp
qed

theorem labels_binarized_witness:
  "materialize 3 ''lab_anemia''
     [\<lparr>feature = [0, 2], label = 0, split = ''train''\<rparr>,
      \<lparr>feature = [1], label = 2, split = ''test''\<rparr>,
      \<lparr>feature = [], label = 0, split = ''train''\<rparr>]
   = Inr \<lparr> X_all = [[1, 0, 1], [0, 1, 0], [0, 0, 0]], y_all = [0, 1, 0],
           splits_all = [''train'', ''test'', ''train''],
           X_train = [[1, 0, 1], [0, 0, 0]], y_train = [0, 0], X_val = [], y_val = [],
           X_test = [[0, 1, 0]], y_test = [1] \<rparr>
   \<and> startswith ''lab_anemia'' ''lab_''
   \<and> (0::int) \<le> 2
   \<and> [0, 1, 0 :: int] ! 1 = (if 1 \<le> (2::int) then 1 else 0)
   \<and> materialize 3 ''guo_icu'' [\<lparr>feature = [1], label = 2, split = ''test''\<rparr>]
   = Inr \<lparr> X_all = [[0, 1, 0]], y_all = [2], splits_all = [''test''],
           X_train = [], y_train = [], X_val = [], y_val = [],
           X_test = [[0, 1, 0]], y_test = [2] \<rparr>
   \<and> \<not> startswith ''guo_icu'' ''lab_''
   \<and> [2 :: int] ! 0 = 2"
proof -
  let ?ss = "[\<lparr>feature = [0, 2], label = 0, split = ''train''\<rparr>,
      \<lparr>feature = [1], label = 2, split = ''test''\<rparr>,
      \<lparr>feature = [], label = 0, split = ''train''\<rparr>]"
  let ?one = "[\<lparr>feature = [1], label = 2, split = ''test''\<rparr>]"
  have run: "materialize 3 ''lab_anemia'' ?ss
   = Inr \<lparr> X_all = [[1, 0, 1], [0, 1, 0], [0, 0, 0]], y_all = [0, 1, 0],
           splits_all = [''train'', ''test'', ''train''],
           X_train = [[1, 0, 1], [0, 0, 0]], y_train = [0, 0], X_val = [], y_val = [],
           X_test = [[0, 1, 0]], y_test = [1] \<rparr>"
    by code_simp
  have lab: "startswith ''lab_anemia'' ''lab_''" by code_simp
  have run2: "materialize 3 ''guo_icu'' ?one
   = Inr \<lparr> X_all = [[0, 1, 0]], y_all = [2], splits_all = [''test''],
           X_train = [], y_train = [], X_val = [], y_val = [],
           X_test = [[0, 1, 0]], y_test = [2] \<rparr>"
    by code_simp
  have nolab: "\<not> startswith ''guo_icu'' ''lab_''" by code_simp
  have pos: "(0::int) \<le> 2" by simp
  have i1: "(1::nat) < length ?ss" by simp
  have lbl: "label (?ss ! 1) = 2" by simp
  note bin = labels_binarized [OF run, THEN conjunct2, THEN conjunct1, THEN mp, OF lab,
      THEN spec, THEN mp, OF i1]
  have a: "[0, 1, 0 :: int] ! 1 = (if 1 \<le> (2::int) then 1 else 0)"
    using bin pos unfolding arrays.select_convs lbl by blast
  have i0: "(0::nat) < length ?one" by simp
  note keep = labels_binarized [OF run2, THEN conjunct2, THEN conjunct2, THEN mp, OF nolab,
      THEN spec, THEN mp, OF i0]
  have b: "[2 :: int] ! 0 = 2"
    using keep unfolding arrays.select_convs by simp
  from run lab pos a run2 nolab b show ?thesis
    by (intro conjI)
qed

lemma eq_mask_map:
  "eq_mask (map (np_str \<circ> split) ss) tag = map (\<lambda>s. np_str (split s) = np_str tag) ss"
  by (simp add: eq_mask_def)

lemma bool_index_map: "bool_index (map f ss) (map Q ss) = map f (filter Q ss)"
  by (induction ss) (simp_all add: bool_index_def)

lemma bool_index_list_all2:
  "list_all2 P ss xs \<Longrightarrow> list_all2 P (filter Q ss) (bool_index xs (map Q ss))"
  by (induction rule: list_all2_induct) (simp_all add: bool_index_def)

lemma partition_of_input:
  assumes "materialize n t ss = Inr a"
  shows "list_all2 (\<lambda>s row. multi_hot n s = Inr row) (tagged ss ''train'') (X_train a)"
    and "y_train a = map (\<lambda>s. if startswith t ''lab_'' \<and> 1 \<le> label s then 1 else label s)
                        (tagged ss ''train'')"
    and "list_all2 (\<lambda>s row. multi_hot n s = Inr row) (tagged ss ''val'') (X_val a)"
    and "y_val a = map (\<lambda>s. if startswith t ''lab_'' \<and> 1 \<le> label s then 1 else label s)
                      (tagged ss ''val'')"
    and "list_all2 (\<lambda>s row. multi_hot n s = Inr row) (tagged ss ''test'') (X_test a)"
    and "y_test a = map (\<lambda>s. if startswith t ''lab_'' \<and> 1 \<le> label s then 1 else label s)
                       (tagged ss ''test'')"
    and "y_all a = map (\<lambda>s. if startswith t ''lab_'' \<and> 1 \<le> label s then 1 else label s) ss"
proof -
  note m = materialize_Inr [OF assms]
  have msk: "eq_mask (splits_all a) tag = map (\<lambda>s. np_str (split s) = np_str tag) ss" for tag
    unfolding m(3) by (rule eq_mask_map)
  show y: "y_all a = map (\<lambda>s. if startswith t ''lab_'' \<and> 1 \<le> label s then 1 else label s) ss"
    using m(2) by (simp add: binarize_def)
  show "list_all2 (\<lambda>s row. multi_hot n s = Inr row) (tagged ss ''train'') (X_train a)"
    unfolding m(4) msk tagged_def using m(1) by (rule bool_index_list_all2)
  show "list_all2 (\<lambda>s row. multi_hot n s = Inr row) (tagged ss ''val'') (X_val a)"
    unfolding m(6) msk tagged_def using m(1) by (rule bool_index_list_all2)
  show "list_all2 (\<lambda>s row. multi_hot n s = Inr row) (tagged ss ''test'') (X_test a)"
    unfolding m(8) msk tagged_def using m(1) by (rule bool_index_list_all2)
  show "y_train a = map (\<lambda>s. if startswith t ''lab_'' \<and> 1 \<le> label s then 1 else label s)
                        (tagged ss ''train'')"
    unfolding m(5) msk tagged_def y by (rule bool_index_map)
  show "y_val a = map (\<lambda>s. if startswith t ''lab_'' \<and> 1 \<le> label s then 1 else label s)
                        (tagged ss ''val'')"
    unfolding m(7) msk tagged_def y by (rule bool_index_map)
  show "y_test a = map (\<lambda>s. if startswith t ''lab_'' \<and> 1 \<le> label s then 1 else label s)
                        (tagged ss ''test'')"
    unfolding m(9) msk tagged_def y by (rule bool_index_map)
qed

lemma tagged_rows_of: "tagged ss tag = map ((!) ss) (rows_of ss tag)"
proof -
  have "bool_index ss (map (\<lambda>s. np_str (split s) = np_str tag) ss)
        = map ((!) ss) (nonzero (map (\<lambda>s. np_str (split s) = np_str tag) ss))"
    by (rule bool_index_nonzero) simp
  moreover have "bool_index (map id ss) (map (\<lambda>s. np_str (split s) = np_str tag) ss)
        = map id (filter (\<lambda>s. np_str (split s) = np_str tag) ss)"
    by (rule bool_index_map)
  ultimately show ?thesis
    by (simp add: tagged_def rows_of_def eq_mask_map)
qed

text \<open>
  C8. Whenever the cell runs to its end, row \<open>i\<close> of the feature matrix is the multi-hot
  row of sample \<open>i\<close> and label \<open>i\<close> is the output label of sample \<open>i\<close>; and each of the
  train, val and test partitions holds the rows, and the output labels, of the input
  samples with that tag, in the order in which these samples occur in the input sequence
  (they are the samples at the positions \<open>rows_of\<close>, which increase strictly). So the rows
  and labels of a partition are in the relative order of the input, and are a subsequence
  of the full arrays.
\<close>

theorem partitions_keep_input_order:
  assumes "materialize n t ss = Inr a"
  shows "(list_all2 (\<lambda>s row. multi_hot n s = Inr row) ss (X_all a) \<and>
          y_all a = map (\<lambda>s. if startswith t ''lab_'' \<and> 1 \<le> label s then 1 else label s) ss) \<and>
         (tagged ss ''train'' = map ((!) ss) (rows_of ss ''train'') \<and>
          sorted_wrt (<) (rows_of ss ''train'') \<and>
          list_all2 (\<lambda>s row. multi_hot n s = Inr row) (tagged ss ''train'') (X_train a) \<and>
          y_train a = map (\<lambda>s. if startswith t ''lab_'' \<and> 1 \<le> label s then 1 else label s) (tagged ss ''train'') \<and>
          X_train a = map ((!) (X_all a)) (rows_of ss ''train'') \<and>
          y_train a = map ((!) (y_all a)) (rows_of ss ''train'') \<and>
          subseq (X_train a) (X_all a) \<and> subseq (y_train a) (y_all a)) \<and>
         (tagged ss ''val'' = map ((!) ss) (rows_of ss ''val'') \<and>
          sorted_wrt (<) (rows_of ss ''val'') \<and>
          list_all2 (\<lambda>s row. multi_hot n s = Inr row) (tagged ss ''val'') (X_val a) \<and>
          y_val a = map (\<lambda>s. if startswith t ''lab_'' \<and> 1 \<le> label s then 1 else label s) (tagged ss ''val'') \<and>
          X_val a = map ((!) (X_all a)) (rows_of ss ''val'') \<and>
          y_val a = map ((!) (y_all a)) (rows_of ss ''val'') \<and>
          subseq (X_val a) (X_all a) \<and> subseq (y_val a) (y_all a)) \<and>
         (tagged ss ''test'' = map ((!) ss) (rows_of ss ''test'') \<and>
          sorted_wrt (<) (rows_of ss ''test'') \<and>
          list_all2 (\<lambda>s row. multi_hot n s = Inr row) (tagged ss ''test'') (X_test a) \<and>
          y_test a = map (\<lambda>s. if startswith t ''lab_'' \<and> 1 \<le> label s then 1 else label s) (tagged ss ''test'') \<and>
          X_test a = map ((!) (X_all a)) (rows_of ss ''test'') \<and>
          y_test a = map ((!) (y_all a)) (rows_of ss ''test'') \<and>
          subseq (X_test a) (X_all a) \<and> subseq (y_test a) (y_all a))"
proof -
  have s: "sorted_wrt (<) (rows_of ss tag)" for tag
    by (simp add: rows_of_def sorted_nonzero)
  note m = materialize_Inr [OF assms]
  have sub: "subseq (X_train a) (X_all a)" "subseq (y_train a) (y_all a)"
    "subseq (X_val a) (X_all a)" "subseq (y_val a) (y_all a)"
    "subseq (X_test a) (X_all a)" "subseq (y_test a) (y_all a)"
    unfolding m(4-9) by (rule subseq_bool_index)+
  show ?thesis
    by (intro conjI m(1) s sub tagged_rows_of partition_rows [OF assms]
        partition_of_input [OF assms])
qed

theorem partitions_keep_input_order_witness:
  "materialize 3 ''guo_icu''
     [\<lparr>feature = [0, 2], label = 5, split = ''train''\<rparr>,
      \<lparr>feature = [1], label = 2, split = ''test''\<rparr>,
      \<lparr>feature = [], label = 7, split = ''train''\<rparr>]
   = Inr \<lparr> X_all = [[1, 0, 1], [0, 1, 0], [0, 0, 0]], y_all = [5, 2, 7],
           splits_all = [''train'', ''test'', ''train''],
           X_train = [[1, 0, 1], [0, 0, 0]], y_train = [5, 7], X_val = [], y_val = [],
           X_test = [[0, 1, 0]], y_test = [2] \<rparr>
   \<and> tagged [\<lparr>feature = [0, 2], label = 5, split = ''train''\<rparr>,
      \<lparr>feature = [1], label = 2, split = ''test''\<rparr>,
      \<lparr>feature = [], label = 7, split = ''train''\<rparr>] ''train''
       = [\<lparr>feature = [0, 2], label = 5, split = ''train''\<rparr>,
          \<lparr>feature = [], label = 7, split = ''train''\<rparr>]
   \<and> list_all2 (\<lambda>s row. multi_hot 3 s = Inr row)
        (tagged [\<lparr>feature = [0, 2], label = 5, split = ''train''\<rparr>,
      \<lparr>feature = [1], label = 2, split = ''test''\<rparr>,
      \<lparr>feature = [], label = 7, split = ''train''\<rparr>] ''train'')
        [[1, 0, 1], [0, 0, 0]]
   \<and> [5, 7] = map (\<lambda>s. if startswith ''guo_icu'' ''lab_'' \<and> 1 \<le> label s then 1 else label s)
        (tagged [\<lparr>feature = [0, 2], label = 5, split = ''train''\<rparr>,
      \<lparr>feature = [1], label = 2, split = ''test''\<rparr>,
      \<lparr>feature = [], label = 7, split = ''train''\<rparr>] ''train'')"
proof -
  let ?ss = "[\<lparr>feature = [0, 2], label = 5, split = ''train''\<rparr>,
      \<lparr>feature = [1], label = 2, split = ''test''\<rparr>,
      \<lparr>feature = [], label = 7, split = ''train''\<rparr>]"
  have run: "materialize 3 ''guo_icu'' ?ss
   = Inr \<lparr> X_all = [[1, 0, 1], [0, 1, 0], [0, 0, 0]], y_all = [5, 2, 7],
           splits_all = [''train'', ''test'', ''train''],
           X_train = [[1, 0, 1], [0, 0, 0]], y_train = [5, 7], X_val = [], y_val = [],
           X_test = [[0, 1, 0]], y_test = [2] \<rparr>"
    by code_simp
  have sel: "tagged ?ss ''train''
       = [\<lparr>feature = [0, 2], label = 5, split = ''train''\<rparr>,
          \<lparr>feature = [], label = 7, split = ''train''\<rparr>]"
    by code_simp
  note train = partitions_keep_input_order [OF run, THEN conjunct2, THEN conjunct1,
      THEN conjunct2, THEN conjunct2]
  have rows: "list_all2 (\<lambda>s row. multi_hot 3 s = Inr row) (tagged ?ss ''train'')
        [[1, 0, 1], [0, 0, 0]]"
    using train [THEN conjunct1] unfolding arrays.select_convs .
  have labels: "[5, 7] = map (\<lambda>s. if startswith ''guo_icu'' ''lab_'' \<and> 1 \<le> label s then 1 else label s) (tagged ?ss ''train'')"
    using train [THEN conjunct2, THEN conjunct1] unfolding arrays.select_convs .
  from run sel rows labels show ?thesis
    by (intro conjI)
qed

lemma for_loop_negative_size:
  "g_num_features g < 0 \<Longrightarrow> for_loop g (s # ss) = Inl (ValueError, g\<lparr> g_sample := s \<rparr>)"
  by (simp add: np_zeros_def)

lemma for_loop_frame:
  "state_after (for_loop g ss) =
     g\<lparr> g_sample := g_sample (state_after (for_loop g ss)),
        g_vec := g_vec (state_after (for_loop g ss)),
        g_X := g_X (state_after (for_loop g ss)),
        g_y := g_y (state_after (for_loop g ss)),
        g_splits := g_splits (state_after (for_loop g ss)) \<rparr>"
proof (induction ss arbitrary: g)
  case Nil
  show ?case by (simp add: state_after_def)
next
  case (Cons s ss)
  show ?case
  proof (cases "np_zeros (g_num_features g)")
    case (Inl e)
    then show ?thesis by (simp add: state_after_def)
  next
    case zeros: (Inr z)
    show ?thesis
    proof (cases "setitem_one z (feature s)")
      case (Inl e)
      with zeros show ?thesis by (simp add: state_after_def)
    next
      case (Inr vec)
      let ?g3 = "g\<lparr> g_sample := s, g_vec := vec, g_X := g_X g @ [vec],
                   g_y := g_y g @ [label s], g_splits := g_splits g @ [split s] \<rparr>"
      have step: "for_loop g (s # ss) = for_loop ?g3 ss"
        using zeros Inr by simp
      show ?thesis
        unfolding step by (subst Cons.IH [of ?g3]) simp
    qed
  qed
qed

lemma for_loop_partitions:
  "for_loop (g\<lparr> g_X_train := p1, g_y_train := p2, g_X_val := p3, g_y_val := p4,
                 g_X_test := p5, g_y_test := p6 \<rparr>) ss
   = map_sum
       (apsnd (\<lambda>x. x\<lparr> g_X_train := p1, g_y_train := p2, g_X_val := p3, g_y_val := p4,
                        g_X_test := p5, g_y_test := p6 \<rparr>))
       (\<lambda>x. x\<lparr> g_X_train := p1, g_y_train := p2, g_X_val := p3, g_y_val := p4,
                g_X_test := p5, g_y_test := p6 \<rparr>)
       (for_loop g ss)"
proof (induction ss arbitrary: g)
  case Nil
  show ?case by simp
next
  case (Cons s ss)
  show ?case
  proof (cases "np_zeros (g_num_features g)")
    case (Inl e)
    then show ?thesis by simp
  next
    case zeros: (Inr z)
    show ?thesis
    proof (cases "setitem_one z (feature s)")
      case (Inl e)
      with zeros show ?thesis by simp
    next
      case (Inr vec)
      let ?g3 = "g\<lparr> g_sample := s, g_vec := vec, g_X := g_X g @ [vec],
                   g_y := g_y g @ [label s], g_splits := g_splits g @ [split s] \<rparr>"
      let ?P = "\<lambda>x. x\<lparr> g_X_train := p1, g_y_train := p2, g_X_val := p3, g_y_val := p4,
                        g_X_test := p5, g_y_test := p6 \<rparr>"
      have swap: "(?P g)\<lparr> g_sample := s, g_vec := vec, g_X := g_X g @ [vec],
                   g_y := g_y g @ [label s], g_splits := g_splits g @ [split s] \<rparr> = ?P ?g3"
        by (cases g) simp
      have "for_loop (?P g) (s # ss) = for_loop (?P ?g3) ss"
        using zeros Inr by (simp add: swap)
      also have "\<dots> = map_sum (apsnd ?P) ?P (for_loop ?g3 ss)"
        by (rule Cons.IH)
      also have "for_loop ?g3 ss = for_loop g (s # ss)"
        using zeros Inr by simp
      finally show ?thesis .
    qed
  qed
qed

lemma for_loop_stale:
  assumes "0 \<le> g_num_features g \<or> b = g_vec g"
  shows "for_loop (g\<lparr> g_sample := a, g_vec := b \<rparr>) (s # ss) = for_loop g (s # ss)"
proof (cases "g_num_features g < 0")
  case True
  with assms have "b = g_vec g" by simp
  with True show ?thesis by (simp add: np_zeros_def)
next
  case False
  then show ?thesis by (simp add: np_zeros_def)
qed

lemma after_loop_partitions:
  "after_loop (g\<lparr> g_X_train := p1, g_y_train := p2, g_X_val := p3, g_y_val := p4,
                   g_X_test := p5, g_y_test := p6 \<rparr>) = after_loop g"
  by (simp add: after_loop_def Let_def)

lemma after_loop_frame:
  "after_loop g =
     g\<lparr> g_y := g_y (after_loop g), g_splits := g_splits (after_loop g),
        g_X_train := g_X_train (after_loop g), g_y_train := g_y_train (after_loop g),
        g_X_val := g_X_val (after_loop g), g_y_val := g_y_val (after_loop g),
        g_X_test := g_X_test (after_loop g), g_y_test := g_y_test (after_loop g) \<rparr>"
  by (simp add: after_loop_def Let_def)

text \<open>The loop on the global names computes what the loop on the three lists computes.\<close>

lemma for_loop_refines:
  "map_sum fst (\<lambda>h. (g_X h, g_y h, g_splits h)) (for_loop g ss)
   = loop (g_num_features g) ss (g_X g, g_y g, g_splits g)"
proof (induction ss arbitrary: g)
  case Nil
  show ?case by simp
next
  case (Cons s ss)
  show ?case
  proof (cases "np_zeros (g_num_features g)")
    case (Inl e)
    then show ?thesis by (simp add: multi_hot_def)
  next
    case zeros: (Inr z)
    show ?thesis
    proof (cases "setitem_one z (feature s)")
      case (Inl e)
      with zeros show ?thesis by (simp add: multi_hot_def)
    next
      case (Inr vec)
      let ?g3 = "g\<lparr> g_sample := s, g_vec := vec, g_X := g_X g @ [vec],
                   g_y := g_y g @ [label s], g_splits := g_splits g @ [split s] \<rparr>"
      from zeros Inr show ?thesis
        using Cons.IH [of ?g3] by (simp add: multi_hot_def)
    qed
  qed
qed

lemma for_loop_keeps_inputs:
  "g_task (state_after (for_loop g ss)) = g_task g"
  "g_samples (state_after (for_loop g ss)) = g_samples g"
  "g_next_index (state_after (for_loop g ss)) = g_next_index g"
  "g_num_features (state_after (for_loop g ss)) = g_num_features g"
  "g_X_train (state_after (for_loop g ss)) = g_X_train g"
  "g_y_train (state_after (for_loop g ss)) = g_y_train g"
  "g_X_val (state_after (for_loop g ss)) = g_X_val g"
  "g_y_val (state_after (for_loop g ss)) = g_y_val g"
  "g_X_test (state_after (for_loop g ss)) = g_X_test g"
  "g_y_test (state_after (for_loop g ss)) = g_y_test g"
  by (subst for_loop_frame, simp)+

text \<open>The cell on the global names shows what \<open>materialize\<close> computes from the three inputs.\<close>

lemma cell11_refines:
  "outcome (cell11 g) = materialize (g_next_index g) (g_task g) (g_samples g)"
proof -
  let ?g2 = "g\<lparr> g_num_features := g_next_index g, g_X := [], g_y := [], g_splits := [] \<rparr>"
  have c: "cell11 g = (case for_loop ?g2 (g_samples g) of
              Inl failure \<Rightarrow> Inl failure | Inr g3 \<Rightarrow> Inr (after_loop g3))"
    by (simp add: cell11_def Let_def)
  have l: "map_sum fst (\<lambda>h. (g_X h, g_y h, g_splits h)) (for_loop ?g2 (g_samples g))
           = loop (g_next_index g) (g_samples g) ([], [], [])"
    using for_loop_refines [of ?g2 "g_samples g"] by simp
  show ?thesis
  proof (cases "for_loop ?g2 (g_samples g)")
    case (Inl failure)
    with l have "loop (g_next_index g) (g_samples g) ([], [], []) = Inl (fst failure)"
      by simp
    with Inl c show ?thesis
      by (cases failure) (simp add: outcome_def materialize_def)
  next
    case (Inr h)
    with l have lp: "loop (g_next_index g) (g_samples g) ([], [], [])
        = Inr (g_X h, g_y h, g_splits h)"
      by simp
    from for_loop_keeps_inputs(1) [of ?g2 "g_samples g"] Inr
    have t: "g_task h = g_task g"
      by (simp add: state_after_def)
    have "arrays_of (after_loop h) =
       (let splits = map np_str (g_splits h);
            y = (if startswith (g_task g) ''lab_'' then binarize (g_y h) else g_y h)
        in \<lparr> X_all = g_X h, y_all = y, splits_all = splits,
             X_train = bool_index (g_X h) (eq_mask splits ''train''),
             y_train = bool_index y (eq_mask splits ''train''),
             X_val = bool_index (g_X h) (eq_mask splits ''val''),
             y_val = bool_index y (eq_mask splits ''val''),
             X_test = bool_index (g_X h) (eq_mask splits ''test''),
             y_test = bool_index y (eq_mask splits ''test'') \<rparr>)"
      by (simp add: after_loop_def arrays_of_def Let_def t)
    with Inr c lp show ?thesis
      by (simp add: outcome_def materialize_def Let_def)
  qed
qed

lemma after_loop_keeps:
  "g_task (after_loop g) = g_task g"
  "g_samples (after_loop g) = g_samples g"
  "g_next_index (after_loop g) = g_next_index g"
  "g_num_features (after_loop g) = g_num_features g"
  "g_sample (after_loop g) = g_sample g"
  "g_vec (after_loop g) = g_vec g"
  "g_X (after_loop g) = g_X g"
  by (simp_all add: after_loop_def Let_def)

lemma cell11_unfold:
  "cell11 g =
     (case for_loop (g\<lparr> g_num_features := g_next_index g, g_X := [], g_y := [],
                          g_splits := [] \<rparr>) (g_samples g) of
        Inl failure \<Rightarrow> Inl failure
      | Inr g3 \<Rightarrow> Inr (after_loop g3))"
  by (simp add: cell11_def Let_def)

lemma cell11_rerun_empty:
  assumes "g_samples g = []"
  shows "cell11 (state_after (cell11 g)) = cell11 g"
  using assms
  by (cases g)
     (simp add: cell11_def state_after_def after_loop_def Let_def bool_index_def
        eq_mask_def binarize_def)

lemma cell11_rerun_nonempty:
  assumes ss: "g_samples g = s # ss"
  shows "cell11 (state_after (cell11 g)) = cell11 g"
proof -
  let ?g2 = "g\<lparr> g_num_features := g_next_index g, g_X := [], g_y := [], g_splits := [] \<rparr>"
  let ?r = "for_loop ?g2 (s # ss)"
  let ?h = "state_after ?r"
  note k = for_loop_keeps_inputs [of ?g2 "s # ss"]
  have vec: "0 \<le> g_num_features ?g2 \<or> g_vec ?h = g_vec ?g2"
  proof (cases "g_num_features ?g2 < 0")
    case True
    then have "?r = Inl (ValueError, ?g2\<lparr> g_sample := s \<rparr>)"
      by (rule for_loop_negative_size)
    then show ?thesis by (simp add: state_after_def)
  next
    case False
    then show ?thesis by simp
  qed
  have again: "for_loop (?g2\<lparr> g_sample := g_sample ?h, g_vec := g_vec ?h \<rparr>) (s # ss) = ?r"
    using vec by (rule for_loop_stale)
  show ?thesis
  proof (cases ?r)
    case (Inl failure)
    obtain e h where f: "failure = (e, h)" by (cases failure)
    with Inl have h: "?h = h" by (simp add: state_after_def)
    from Inl f ss have first: "cell11 g = Inl (e, h)"
      by (simp add: cell11_unfold)
    have init: "h\<lparr> g_num_features := g_next_index h, g_X := [], g_y := [], g_splits := [] \<rparr>
        = ?g2\<lparr> g_sample := g_sample h, g_vec := g_vec h \<rparr>"
      using k unfolding h by (intro notebook.equality) simp_all
    from k(2) ss have "g_samples h = s # ss" unfolding h by simp
    then have "cell11 h = Inl (e, h)"
      using again Inl f unfolding h by (simp add: cell11_unfold init)
    with first show ?thesis by (simp add: state_after_def)
  next
    case (Inr h)
    then have h: "?h = h" by (simp add: state_after_def)
    from Inr ss have first: "cell11 g = Inr (after_loop h)"
      by (simp add: cell11_unfold)
    let ?P = "\<lambda>x. x\<lparr> g_X_train := g_X_train (after_loop h),
                       g_y_train := g_y_train (after_loop h),
                       g_X_val := g_X_val (after_loop h),
                       g_y_val := g_y_val (after_loop h),
                       g_X_test := g_X_test (after_loop h),
                       g_y_test := g_y_test (after_loop h) \<rparr>"
    have init: "(after_loop h)\<lparr> g_num_features := g_next_index (after_loop h),
                   g_X := [], g_y := [], g_splits := [] \<rparr>
        = ?P (?g2\<lparr> g_sample := g_sample h, g_vec := g_vec h \<rparr>)"
      using k unfolding h by (intro notebook.equality) (simp_all add: after_loop_keeps)
    have "for_loop (?P (?g2\<lparr> g_sample := g_sample h, g_vec := g_vec h \<rparr>)) (s # ss)
        = map_sum (apsnd ?P) ?P
            (for_loop (?g2\<lparr> g_sample := g_sample h, g_vec := g_vec h \<rparr>) (s # ss))"
      by (rule for_loop_partitions)
    also have "\<dots> = Inr (?P h)"
      using again Inr unfolding h by simp
    finally have loop2: "for_loop (?P (?g2\<lparr> g_sample := g_sample h, g_vec := g_vec h \<rparr>))
        (s # ss) = Inr (?P h)" .
    from k(2) ss have "g_samples (after_loop h) = s # ss"
      unfolding h by (simp add: after_loop_keeps)
    then have "cell11 (after_loop h) = Inr (after_loop (?P h))"
      using loop2 by (simp add: cell11_unfold init)
    then have "cell11 (after_loop h) = Inr (after_loop h)"
      by (simp only: after_loop_partitions)
    with first show ?thesis by (simp add: state_after_def)
  qed
qed

text \<open>
  C7. Running the cell again on the names that a run has left bound, whether that run
  ended or raised, gives the same result and leaves the same names bound. What a run shows
  (the error raised, or the feature matrix, label vector, split tags and partitions bound) is
  \<open>materialize\<close> of the feature-space size, the task name and the sample sequence, so two
  runs that read the same three inputs show the same, whatever was bound before.
\<close>

theorem cell11_rerun_identical:
  "cell11 (state_after (cell11 g)) = cell11 g \<and>
   outcome (cell11 g) = materialize (g_next_index g) (g_task g) (g_samples g) \<and>
   (g_task g1 = g_task g2 \<and> g_samples g1 = g_samples g2
      \<and> g_next_index g1 = g_next_index g2 \<longrightarrow>
    outcome (cell11 g1) = outcome (cell11 g2))"
proof (intro conjI impI)
  show "cell11 (state_after (cell11 g)) = cell11 g"
  proof (cases "g_samples g")
    case Nil
    then show ?thesis by (rule cell11_rerun_empty)
  next
    case (Cons s ss)
    then show ?thesis by (rule cell11_rerun_nonempty)
  qed
  show "outcome (cell11 g) = materialize (g_next_index g) (g_task g) (g_samples g)"
    by (rule cell11_refines)
  show "outcome (cell11 g1) = outcome (cell11 g2)"
    if "g_task g1 = g_task g2 \<and> g_samples g1 = g_samples g2
      \<and> g_next_index g1 = g_next_index g2"
    using that by (simp add: cell11_refines)
qed

theorem cell11_rerun_identical_witness:
  "cell11
     \<lparr> g_task = ''lab_anemia'',
       g_samples = [\<lparr>feature = [0, 2], label = 0, split = ''train''\<rparr>,
         \<lparr>feature = [1], label = 2, split = ''test''\<rparr>],
       g_next_index = 3, g_num_features = 0,
       g_sample = \<lparr>feature = [], label = 0, split = ''''\<rparr>,
       g_vec = [], g_X = [], g_y = [], g_splits = [],
       g_X_train = [], g_y_train = [], g_X_val = [], g_y_val = [],
       g_X_test = [], g_y_test = [] \<rparr>
   = Inr
     \<lparr> g_task = ''lab_anemia'',
       g_samples = [\<lparr>feature = [0, 2], label = 0, split = ''train''\<rparr>,
         \<lparr>feature = [1], label = 2, split = ''test''\<rparr>],
       g_next_index = 3, g_num_features = 3,
       g_sample = \<lparr>feature = [1], label = 2, split = ''test''\<rparr>,
       g_vec = [0, 1, 0], g_X = [[1, 0, 1], [0, 1, 0]], g_y = [0, 1], g_splits = [''train'', ''test''],
       g_X_train = [[1, 0, 1]], g_y_train = [0], g_X_val = [], g_y_val = [],
       g_X_test = [[0, 1, 0]], g_y_test = [1] \<rparr>
   \<and> cell11
     \<lparr> g_task = ''lab_anemia'',
       g_samples = [\<lparr>feature = [0, 2], label = 0, split = ''train''\<rparr>,
         \<lparr>feature = [1], label = 2, split = ''test''\<rparr>],
       g_next_index = 3, g_num_features = 3,
       g_sample = \<lparr>feature = [1], label = 2, split = ''test''\<rparr>,
       g_vec = [0, 1, 0], g_X = [[1, 0, 1], [0, 1, 0]], g_y = [0, 1], g_splits = [''train'', ''test''],
       g_X_train = [[1, 0, 1]], g_y_train = [0], g_X_val = [], g_y_val = [],
       g_X_test = [[0, 1, 0]], g_y_test = [1] \<rparr>
   = Inr
     \<lparr> g_task = ''lab_anemia'',
       g_samples = [\<lparr>feature = [0, 2], label = 0, split = ''train''\<rparr>,
         \<lparr>feature = [1], label = 2, split = ''test''\<rparr>],
       g_next_index = 3, g_num_features = 3,
       g_sample = \<lparr>feature = [1], label = 2, split = ''test''\<rparr>,
       g_vec = [0, 1, 0], g_X = [[1, 0, 1], [0, 1, 0]], g_y = [0, 1], g_splits = [''train'', ''test''],
       g_X_train = [[1, 0, 1]], g_y_train = [0], g_X_val = [], g_y_val = [],
       g_X_test = [[0, 1, 0]], g_y_test = [1] \<rparr>
   \<and> outcome (cell11
     \<lparr> g_task = ''lab_anemia'',
       g_samples = [\<lparr>feature = [0, 2], label = 0, split = ''train''\<rparr>,
         \<lparr>feature = [1], label = 2, split = ''test''\<rparr>],
       g_next_index = 3, g_num_features = 7,
       g_sample = \<lparr>feature = [0, 2], label = 0, split = ''train''\<rparr>,
       g_vec = [9], g_X = [[4]], g_y = [8], g_splits = [''x''],
       g_X_train = [[5]], g_y_train = [6], g_X_val = [[7]], g_y_val = [3],
       g_X_test = [], g_y_test = [2] \<rparr>)
   = Inr
       \<lparr> X_all = [[1, 0, 1], [0, 1, 0]], y_all = [0, 1], splits_all = [''train'', ''test''],
          X_train = [[1, 0, 1]], y_train = [0], X_val = [], y_val = [],
          X_test = [[0, 1, 0]], y_test = [1] \<rparr>
   \<and> cell11
     \<lparr> g_task = ''guo_icu'',
       g_samples = [\<lparr>feature = [0, 2], label = 0, split = ''train''\<rparr>,
         \<lparr>feature = [5], label = 1, split = ''val''\<rparr>],
       g_next_index = 3, g_num_features = 0,
       g_sample = \<lparr>feature = [], label = 0, split = ''''\<rparr>,
       g_vec = [], g_X = [], g_y = [], g_splits = [],
       g_X_train = [[1]], g_y_train = [1], g_X_val = [], g_y_val = [],
       g_X_test = [], g_y_test = [] \<rparr>
   = Inl (IndexError,
     \<lparr> g_task = ''guo_icu'',
       g_samples = [\<lparr>feature = [0, 2], label = 0, split = ''train''\<rparr>,
         \<lparr>feature = [5], label = 1, split = ''val''\<rparr>],
       g_next_index = 3, g_num_features = 3,
       g_sample = \<lparr>feature = [5], label = 1, split = ''val''\<rparr>,
       g_vec = [0, 0, 0], g_X = [[1, 0, 1]], g_y = [0], g_splits = [''train''],
       g_X_train = [[1]], g_y_train = [1], g_X_val = [], g_y_val = [],
       g_X_test = [], g_y_test = [] \<rparr>)
   \<and> cell11
     \<lparr> g_task = ''guo_icu'',
       g_samples = [\<lparr>feature = [0, 2], label = 0, split = ''train''\<rparr>,
         \<lparr>feature = [5], label = 1, split = ''val''\<rparr>],
       g_next_index = 3, g_num_features = 3,
       g_sample = \<lparr>feature = [5], label = 1, split = ''val''\<rparr>,
       g_vec = [0, 0, 0], g_X = [[1, 0, 1]], g_y = [0], g_splits = [''train''],
       g_X_train = [[1]], g_y_train = [1], g_X_val = [], g_y_val = [],
       g_X_test = [], g_y_test = [] \<rparr>
   = Inl (IndexError,
     \<lparr> g_task = ''guo_icu'',
       g_samples = [\<lparr>feature = [0, 2], label = 0, split = ''train''\<rparr>,
         \<lparr>feature = [5], label = 1, split = ''val''\<rparr>],
       g_next_index = 3, g_num_features = 3,
       g_sample = \<lparr>feature = [5], label = 1, split = ''val''\<rparr>,
       g_vec = [0, 0, 0], g_X = [[1, 0, 1]], g_y = [0], g_splits = [''train''],
       g_X_train = [[1]], g_y_train = [1], g_X_val = [], g_y_val = [],
       g_X_test = [], g_y_test = [] \<rparr>)"
proof -
  let ?g0 = "\<lparr> g_task = ''lab_anemia'',
       g_samples = [\<lparr>feature = [0, 2], label = 0, split = ''train''\<rparr>,
         \<lparr>feature = [1], label = 2, split = ''test''\<rparr>],
       g_next_index = 3, g_num_features = 0,
       g_sample = \<lparr>feature = [], label = 0, split = ''''\<rparr>,
       g_vec = [], g_X = [], g_y = [], g_splits = [],
       g_X_train = [], g_y_train = [], g_X_val = [], g_y_val = [],
       g_X_test = [], g_y_test = [] \<rparr>"
  let ?g1 = "\<lparr> g_task = ''lab_anemia'',
       g_samples = [\<lparr>feature = [0, 2], label = 0, split = ''train''\<rparr>,
         \<lparr>feature = [1], label = 2, split = ''test''\<rparr>],
       g_next_index = 3, g_num_features = 3,
       g_sample = \<lparr>feature = [1], label = 2, split = ''test''\<rparr>,
       g_vec = [0, 1, 0], g_X = [[1, 0, 1], [0, 1, 0]], g_y = [0, 1], g_splits = [''train'', ''test''],
       g_X_train = [[1, 0, 1]], g_y_train = [0], g_X_val = [], g_y_val = [],
       g_X_test = [[0, 1, 0]], g_y_test = [1] \<rparr>"
  let ?h0 = "\<lparr> g_task = ''lab_anemia'',
       g_samples = [\<lparr>feature = [0, 2], label = 0, split = ''train''\<rparr>,
         \<lparr>feature = [1], label = 2, split = ''test''\<rparr>],
       g_next_index = 3, g_num_features = 7,
       g_sample = \<lparr>feature = [0, 2], label = 0, split = ''train''\<rparr>,
       g_vec = [9], g_X = [[4]], g_y = [8], g_splits = [''x''],
       g_X_train = [[5]], g_y_train = [6], g_X_val = [[7]], g_y_val = [3],
       g_X_test = [], g_y_test = [2] \<rparr>"
  let ?f0 = "\<lparr> g_task = ''guo_icu'',
       g_samples = [\<lparr>feature = [0, 2], label = 0, split = ''train''\<rparr>,
         \<lparr>feature = [5], label = 1, split = ''val''\<rparr>],
       g_next_index = 3, g_num_features = 0,
       g_sample = \<lparr>feature = [], label = 0, split = ''''\<rparr>,
       g_vec = [], g_X = [], g_y = [], g_splits = [],
       g_X_train = [[1]], g_y_train = [1], g_X_val = [], g_y_val = [],
       g_X_test = [], g_y_test = [] \<rparr>"
  let ?f1 = "\<lparr> g_task = ''guo_icu'',
       g_samples = [\<lparr>feature = [0, 2], label = 0, split = ''train''\<rparr>,
         \<lparr>feature = [5], label = 1, split = ''val''\<rparr>],
       g_next_index = 3, g_num_features = 3,
       g_sample = \<lparr>feature = [5], label = 1, split = ''val''\<rparr>,
       g_vec = [0, 0, 0], g_X = [[1, 0, 1]], g_y = [0], g_splits = [''train''],
       g_X_train = [[1]], g_y_train = [1], g_X_val = [], g_y_val = [],
       g_X_test = [], g_y_test = [] \<rparr>"
  have first: "cell11 ?g0 = Inr ?g1"
    by code_simp
  from cell11_rerun_identical [of ?g0, THEN conjunct1]
  have again: "cell11 ?g1 = Inr ?g1"
    unfolding first state_after_def sum.case .
  have same: "g_task ?h0 = g_task ?g0 \<and> g_samples ?h0 = g_samples ?g0
      \<and> g_next_index ?h0 = g_next_index ?g0"
    by simp
  have shown: "outcome (cell11 ?g0) = Inr
       \<lparr> X_all = [[1, 0, 1], [0, 1, 0]], y_all = [0, 1], splits_all = [''train'', ''test''],
          X_train = [[1, 0, 1]], y_train = [0], X_val = [], y_val = [],
          X_test = [[0, 1, 0]], y_test = [1] \<rparr>"
    unfolding first by (simp add: outcome_def arrays_of_def)
  from cell11_rerun_identical [of ?g0 ?h0 ?g0, THEN conjunct2, THEN conjunct2, THEN mp, OF same]
  have other: "outcome (cell11 ?h0) = Inr
       \<lparr> X_all = [[1, 0, 1], [0, 1, 0]], y_all = [0, 1], splits_all = [''train'', ''test''],
          X_train = [[1, 0, 1]], y_train = [0], X_val = [], y_val = [],
          X_test = [[0, 1, 0]], y_test = [1] \<rparr>"
    unfolding shown .
  have failed: "cell11 ?f0 = Inl (IndexError, ?f1)"
    by code_simp
  from cell11_rerun_identical [of ?f0, THEN conjunct1]
  have failed_again: "cell11 ?f1 = Inl (IndexError, ?f1)"
    unfolding failed state_after_def sum.case prod.case .
  from first again other failed failed_again show ?thesis
    by (intro conjI)
qed

end
